theory Spec2Isabelle
  imports Complex_Main "HOL-Library.Monad_Syntax" "HOL-Library.Sublist"
begin

section \<open>JavaScript values\<close>

text \<open>
  Primitive values. A number is given by its integer value (line and column numbers,
  counters), with the three non-finite numbers apart. A string is the sequence of its
  characters, one \<open>char\<close> for each, for the characters U+0000 to U+00FF: the \<open>char\<close> with
  code \<open>n\<close> is the character U+\<open>n\<close>.
\<close>

datatype prim =
    Undefined
  | Null
  | PBool bool
  | PNum int
  | PNaN
  | PInfinity
  | PNegInfinity
  | PStr string

text \<open>A value of type \<open>unknown\<close>: a primitive, or an object with its properties.\<close>

datatype unknown =
    Prim prim
  | Object "(string \<times> unknown) list"

fun truthy_prim :: "prim \<Rightarrow> bool" where
  "truthy_prim Undefined = False"
| "truthy_prim Null = False"
| "truthy_prim (PBool b) = b"
| "truthy_prim (PNum n) = (n \<noteq> 0)"
| "truthy_prim PNaN = False"
| "truthy_prim (PStr s) = (s \<noteq> [])"
| "truthy_prim _ = True"

fun truthy :: "unknown \<Rightarrow> bool" where
  "truthy (Prim p) = truthy_prim p"
| "truthy (Object _) = True"

fun typeof :: "unknown \<Rightarrow> string" where
  "typeof (Prim Undefined) = ''undefined''"
| "typeof (Prim Null) = ''object''"
| "typeof (Prim (PBool _)) = ''boolean''"
| "typeof (Prim (PStr _)) = ''string''"
| "typeof (Prim _) = ''number''"
| "typeof (Object _) = ''object''"

text \<open>\<open>x != null\<close>: loose inequality, false for both \<open>null\<close> and \<open>undefined\<close>.\<close>

fun not_nullish :: "unknown \<Rightarrow> bool" where
  "not_nullish (Prim Undefined) = False"
| "not_nullish (Prim Null) = False"
| "not_nullish _ = True"

text \<open>\<open>k in x\<close> and \<open>x.k\<close> on an object (own properties; a missing one reads as undefined).\<close>

fun has_prop :: "string \<Rightarrow> unknown \<Rightarrow> bool" where
  "has_prop k (Object ps) = (map_of ps k \<noteq> None)"
| "has_prop k (Prim _) = False"

fun get_prop :: "string \<Rightarrow> unknown \<Rightarrow> unknown" where
  "get_prop k (Object ps) = (case map_of ps k of Some v \<Rightarrow> v | None \<Rightarrow> Prim Undefined)"
| "get_prop k (Prim _) = Prim Undefined"

fun str_of :: "unknown \<Rightarrow> string" where
  "str_of (Prim (PStr s)) = s"
| "str_of _ = []"

text \<open>Decimal digits and their values.\<close>

definition is_digit :: "char \<Rightarrow> bool" where
  "is_digit c = (c \<in> set ''0123456789'')"

definition digit_value :: "char \<Rightarrow> int" where
  "digit_value c = int (of_char c) - 48"

text \<open>A thrown value or a rejection reason, and the outcome of a call that may throw.\<close>

type_synonym exn = unknown
type_synonym 'a result = "exn + 'a"

section \<open>Breadcrumb buffer\<close>

text \<open>
  The breadcrumb buffer and \<open>Scope.addBreadcrumb\<close> live in the core package, whose
  sources are not at hand; the definitions of this section follow the specification,
  sections 3, 4.1 and 4.2.
\<close>

record Breadcrumb =
  timestamp :: "int option"
  crumb_category :: "string option"
  crumb_message :: "string option"
  crumb_level :: "string option"

record BreadcrumbBuffer =
  capacity :: nat
  items :: "Breadcrumb list"

text \<open>
  Modelled from the spec: \<open>BreadcrumbBuffer.push\<close> (the core package's scope module is
  missing). "Fixed-capacity ordered sequence", "ordered by insertion; capacity bound N;
  oldest evicted first": the new breadcrumb goes to the end, and the oldest entries are
  dropped from the front while the buffer is over its capacity.
\<close>

definition push :: "Breadcrumb \<Rightarrow> BreadcrumbBuffer \<Rightarrow> BreadcrumbBuffer" where
  "push b buf =
     (let xs = items buf @ [b]
      in buf\<lparr>items := drop (length xs - capacity buf) xs\<rparr>)"

text \<open>
  Modelled from the spec: \<open>toArray\<close> (missing with the buffer), a point-in-time copy.
\<close>

definition toArray :: "BreadcrumbBuffer \<Rightarrow> Breadcrumb list" where
  "toArray buf = items buf"

text \<open>
  Modelled from the spec: the timestamp rule of \<open>Scope.addBreadcrumb\<close> (missing):
  "if a breadcrumb has no timestamp, the current time is assigned".
\<close>

definition stamp :: "int \<Rightarrow> Breadcrumb \<Rightarrow> Breadcrumb" where
  "stamp now b = (case timestamp b of None \<Rightarrow> b\<lparr>timestamp := Some now\<rparr> | Some _ \<Rightarrow> b)"

text \<open>
  Modelled from the spec: \<open>Scope.addBreadcrumb\<close> (missing): "appends, evicting oldest
  if at capacity". The call reads the clock once; \<open>now\<close> is that reading.
\<close>

definition addBreadcrumb ::
  "int \<Rightarrow> Breadcrumb \<Rightarrow> BreadcrumbBuffer \<Rightarrow> BreadcrumbBuffer" where
  "addBreadcrumb now b buf = push (stamp now b) buf"

text \<open>A sequence of calls, each with the breadcrumb passed and the clock reading it saw.\<close>

fun addBreadcrumbs ::
  "(int \<times> Breadcrumb) list \<Rightarrow> BreadcrumbBuffer \<Rightarrow> BreadcrumbBuffer" where
  "addBreadcrumbs [] buf = buf"
| "addBreadcrumbs ((now, b) # calls) buf = addBreadcrumbs calls (addBreadcrumb now b buf)"

text \<open>A breadcrumb carrying only a message and, possibly, a timestamp.\<close>

definition crumb :: "string \<Rightarrow> int option \<Rightarrow> Breadcrumb" where
  "crumb m t =
     \<lparr>timestamp = t, crumb_category = None, crumb_message = Some m, crumb_level = None\<rparr>"

section \<open>The event pipeline\<close>

text \<open>
  The client, its event processors, the sampling step and the transport are in the core
  package, whose sources are not at hand (the browser package only lists
  \<open>new Dedupe()\<close> among its default integrations). The definitions of this section
  follow the specification, sections 3, 4.3 and 4.4.
\<close>

record PipelineEvent =
  event_id :: string
  event_message :: string
  event_stack :: "string list"

text \<open>
  Modelled from the spec: the signature that the dedup processor compares (the dedupe
  integration is missing): "the event's stack+message signature".
\<close>

definition signature :: "PipelineEvent \<Rightarrow> string list \<times> string" where
  "signature e = (event_stack e, event_message e)"

text \<open>
  The state of the client: the single event the dedup processor remembers, the
  client-report counters (one entry, the reason, per dropped event), the number of random
  values drawn so far, and the events handed to the transport, in order.
\<close>

record ClientState =
  previousEvent :: "PipelineEvent option"
  dropped :: "string list"
  draws :: nat
  transport :: "PipelineEvent list"

text \<open>
  Modelled from the spec: the dedup processor (missing): "drop if the event's
  stack+message signature repeats the immediately-previous captured error", comparing
  "only to the single last event, not a full history". An event that passes becomes the
  remembered one.
\<close>

definition dedupe ::
  "PipelineEvent \<Rightarrow> ClientState \<Rightarrow> PipelineEvent option \<times> ClientState" where
  "dedupe e st =
     (case previousEvent st of
        Some p \<Rightarrow>
          if signature p = signature e then (None, st)
          else (Some e, st\<lparr>previousEvent := Some e\<rparr>)
      | None \<Rightarrow> (Some e, st\<lparr>previousEvent := Some e\<rparr>))"

text \<open>
  Modelled from the spec: the inbound filters and the user-registered processors
  (missing), as one ordered list of processors; each returns the event, a modified event,
  or nothing, and "a drop short-circuits the remaining chain".
\<close>

fun runProcessors ::
  "(PipelineEvent \<Rightarrow> PipelineEvent option) list \<Rightarrow> PipelineEvent \<Rightarrow> PipelineEvent option" where
  "runProcessors [] e = Some e"
| "runProcessors (p # ps) e = (case p e of None \<Rightarrow> None | Some e' \<Rightarrow> runProcessors ps e')"

record ClientOptions =
  sampleRate :: real
  processors :: "(PipelineEvent \<Rightarrow> PipelineEvent option) list"

text \<open>
  Modelled from the spec: the steps before sampling (missing): (1) the default
  integrations' processors, here dedup, (2) the inbound filters and (3) the user
  processors. A dropped event is counted under its reason.
\<close>

definition beforeSampling ::
  "ClientOptions \<Rightarrow> PipelineEvent \<Rightarrow> ClientState \<Rightarrow> PipelineEvent option \<times> ClientState" where
  "beforeSampling cfg e st =
     (case dedupe e st of
        (None, st1) \<Rightarrow> (None, st1\<lparr>dropped := dropped st1 @ [''dedupe'']\<rparr>)
      | (Some e1, st1) \<Rightarrow>
          (case runProcessors (processors cfg) e1 of
             None \<Rightarrow> (None, st1\<lparr>dropped := dropped st1 @ [''event_processor'']\<rparr>)
           | Some e2 \<Rightarrow> (Some e2, st1)))"

text \<open>
  Modelled from the spec: the sampling step (missing): "draw once per event using a
  configured sample rate in [0,1]; a drawn value \<ge> rate drops the event". The random
  source is the sequence \<open>random\<close> of the values that successive draws return; the step
  takes the next one.
\<close>

definition sampling ::
  "ClientOptions \<Rightarrow> (nat \<Rightarrow> real) \<Rightarrow> PipelineEvent \<Rightarrow> ClientState
     \<Rightarrow> PipelineEvent option \<times> ClientState" where
  "sampling cfg random e st =
     (let drawn = random (draws st);
          st1 = st\<lparr>draws := Suc (draws st)\<rparr>
      in if drawn \<ge> sampleRate cfg
         then (None, st1\<lparr>dropped := dropped st1 @ [''sample_rate'']\<rparr>)
         else (Some e, st1))"

text \<open>
  Modelled from the spec: \<open>captureEvent\<close> (missing): the pipeline in its fixed order, then
  the hand-over to the transport; the result is the event id, or nothing for a dropped
  event.
\<close>

definition captureEvent ::
  "ClientOptions \<Rightarrow> (nat \<Rightarrow> real) \<Rightarrow> PipelineEvent \<Rightarrow> ClientState
     \<Rightarrow> string option \<times> ClientState" where
  "captureEvent cfg random e st =
     (case beforeSampling cfg e st of
        (None, st1) \<Rightarrow> (None, st1)
      | (Some e1, st1) \<Rightarrow>
          (case sampling cfg random e1 st1 of
             (None, st2) \<Rightarrow> (None, st2)
           | (Some e2, st2) \<Rightarrow>
               (Some (event_id e2), st2\<lparr>transport := transport st2 @ [e2]\<rparr>)))"

fun captureEvents ::
  "ClientOptions \<Rightarrow> (nat \<Rightarrow> real) \<Rightarrow> PipelineEvent list \<Rightarrow> ClientState \<Rightarrow> ClientState" where
  "captureEvents cfg random [] st = st"
| "captureEvents cfg random (e # es) st =
     captureEvents cfg random es (snd (captureEvent cfg random e st))"

text \<open>The events of a sequence that the steps before sampling let through, in order.\<close>

fun passing ::
  "ClientOptions \<Rightarrow> PipelineEvent list \<Rightarrow> ClientState \<Rightarrow> PipelineEvent list" where
  "passing cfg [] st = []"
| "passing cfg (e # es) st =
     (case beforeSampling cfg e st of
        (None, st1) \<Rightarrow> passing cfg es st1
      | (Some e1, st1) \<Rightarrow> e1 # passing cfg es st1)"

section \<open>The rate limiter\<close>

text \<open>
  The rate limiter is in the core and utils packages, whose sources are not at hand; the
  definitions of this section follow the specification, sections 3, 4.5, 4.6 and 6. Times are in milliseconds; an entry is the time at which the limit of
  its category ends.
\<close>

type_synonym RateLimits = "string \<rightharpoonup> int"

text \<open>
  Modelled from the spec: \<open>isRateLimited\<close> (missing): "checking the category's entry and
  the wildcard \<open>all\<close> entry, taking the later expiry of the two". An entry that has
  expired no longer limits (entries are "checked lazily, not swept").
\<close>

definition later_expiry :: "int option \<Rightarrow> int option \<Rightarrow> int option" where
  "later_expiry a b =
     (case a of
        None \<Rightarrow> b
      | Some x \<Rightarrow> (case b of None \<Rightarrow> Some x | Some y \<Rightarrow> Some (max x y)))"

definition disabledUntil :: "RateLimits \<Rightarrow> string \<Rightarrow> int option" where
  "disabledUntil limits category = later_expiry (limits category) (limits ''all'')"

definition isRateLimited :: "RateLimits \<Rightarrow> string \<Rightarrow> int \<Rightarrow> bool" where
  "isRateLimited limits category now =
     (case disabledUntil limits category of None \<Rightarrow> False | Some expiry \<Rightarrow> now < expiry)"

text \<open>Splitting a string at a separating character, as the header format needs.\<close>

fun split_char_from :: "char \<Rightarrow> string \<Rightarrow> string \<Rightarrow> string list" where
  "split_char_from sep acc [] = [rev acc]"
| "split_char_from sep acc (c # cs) =
     (if c = sep then rev acc # split_char_from sep [] cs
      else split_char_from sep (c # acc) cs)"

definition split_char :: "char \<Rightarrow> string \<Rightarrow> string list" where
  "split_char sep s = split_char_from sep [] s"

text \<open>A run of decimal digits as a number; nothing else is a retry-after value.\<close>

fun seconds_from :: "nat \<Rightarrow> string \<Rightarrow> nat option" where
  "seconds_from n [] = Some n"
| "seconds_from n (c # cs) =
     (if is_digit c then seconds_from (10 * n + nat (digit_value c)) cs else None)"

definition parseSeconds :: "string \<Rightarrow> nat option" where
  "parseSeconds s = (if s = [] then None else seconds_from 0 s)"

text \<open>
  Modelled from the spec: one segment \<open>retry-after-seconds:category1;category2:scope\<close> of
  the \<open>X-Sentry-Rate-Limits\<close> header (the parser is missing). The expiry is absolute,
  \<open>now\<close> plus the duration, or plus the default backoff when the duration is absent. A
  segment without categories limits everything, and so does one with a scope that is not
  among the known ones (organization, project, key): it is "treated conservatively as a
  global limit".
\<close>

definition known_scope :: "string \<Rightarrow> bool" where
  "known_scope s = (s = ''organization'' \<or> s = ''project'' \<or> s = ''key'')"

definition segment_categories :: "string list \<Rightarrow> string list" where
  "segment_categories parts =
     (let categories = (case tl parts of
                          [] \<Rightarrow> []
                        | cs # _ \<Rightarrow> filter (\<lambda>c. c \<noteq> []) (split_char CHR '';'' cs));
          scope_known = (case tl (tl parts) of [] \<Rightarrow> True | s # _ \<Rightarrow> known_scope s)
      in if categories = [] \<or> \<not> scope_known then [''all''] else categories)"

definition update_segment :: "int \<Rightarrow> int \<Rightarrow> RateLimits \<Rightarrow> string \<Rightarrow> RateLimits" where
  "update_segment default_backoff now limits segment =
     (let parts = split_char CHR '':'' segment;
          delay = (case parseSeconds (hd parts) of
                     None \<Rightarrow> default_backoff
                   | Some seconds \<Rightarrow> int seconds * 1000)
      in fold (\<lambda>category l. l(category \<mapsto> now + delay)) (segment_categories parts) limits)"

text \<open>
  Modelled from the spec: \<open>update(headers, now)\<close> (missing): the per-category values of
  \<open>X-Sentry-Rate-Limits\<close>, comma-separated; without that header the global
  \<open>Retry-After\<close> value; and on a 429 without either, "a default backoff window for all
  categories". The spec leaves the default's length open: it is a parameter.
\<close>

record ResponseHeaders =
  x_sentry_rate_limits :: "string option"
  retry_after :: "string option"

definition update :: "int \<Rightarrow> nat \<Rightarrow> ResponseHeaders \<Rightarrow> int \<Rightarrow> RateLimits \<Rightarrow> RateLimits" where
  "update default_backoff statusCode headers now limits =
     (case x_sentry_rate_limits headers of
        Some h \<Rightarrow>
          foldl (update_segment default_backoff now) limits (split_char CHR '','' h)
      | None \<Rightarrow>
          (case retry_after headers of
             Some r \<Rightarrow>
               limits(''all'' \<mapsto> now + (case parseSeconds r of
                                              None \<Rightarrow> default_backoff
                                            | Some seconds \<Rightarrow> int seconds * 1000))
           | None \<Rightarrow>
               if statusCode = 429 then limits(''all'' \<mapsto> now + default_backoff) else limits))"

section \<open>SvelteKit server error handler\<close>

text \<open>
  The request event as far as the handler reads it: \<open>event.route\<close> may be absent, and
  \<open>event.route.id\<close> is a string or \<open>null\<close>.
\<close>

record Route =
  route_id :: "string option"

record RequestEvent =
  route :: "Route option"

record HandlerInput =
  input_error :: unknown
  input_event :: RequestEvent

text \<open>
  \<open>isNotFoundError\<close>. \<open>hasNoRouteId\<close> is \<open>!event.route || !event.route.id\<close>: the route is
  missing, or its id is falsy (\<open>null\<close> or the empty string). \<open>rawStack\<close> is the chain of
  \<open>&&\<close> over the error, falling back to the empty string.
\<close>

definition hasNoRouteId :: "RequestEvent \<Rightarrow> bool" where
  "hasNoRouteId ev =
     (case route ev of
        None \<Rightarrow> True
      | Some r \<Rightarrow> (case route_id r of None \<Rightarrow> True | Some s \<Rightarrow> s = []))"

definition rawStack :: "unknown \<Rightarrow> string" where
  "rawStack err =
     (if not_nullish err \<and> typeof err = ''object'' \<and> has_prop ''stack'' err
         \<and> typeof (get_prop ''stack'' err) = ''string'' \<and> truthy (get_prop ''stack'' err)
      then str_of (get_prop ''stack'' err)
      else [])"

definition startsWith :: "string \<Rightarrow> string \<Rightarrow> bool" where
  "startsWith s p = (take (length p) s = p)"

definition isNotFoundError :: "HandlerInput \<Rightarrow> bool" where
  "isNotFoundError input =
     (hasNoRouteId (input_event input)
      \<and> startsWith (rawStack (input_error input)) ''Error: Not found:'')"

text \<open>
  The state the handler runs in: the exceptions handed to the SDK so far, the rest of the
  SDK's state (its transport queue), the console, and the host application's own state.
\<close>

record Mechanism =
  mechanism_type :: string
  handled :: bool

record ('s, 'h) server =
  captured :: "(unknown \<times> Mechanism) list"
  sdk :: 's
  console_error :: "unknown list"
  host :: 'h

text \<open>
  Modelled from the spec: \<open>captureException\<close> of the node package (missing). A capture
  never throws into the host (spec 7) and returns once the event is handed over (spec 4.4);
  the model records the call with its arguments.
\<close>

definition captureException ::
  "unknown \<Rightarrow> Mechanism \<Rightarrow> ('s, 'h) server \<Rightarrow> ('s, 'h) server" where
  "captureException err m w = w\<lparr>captured := captured w @ [(err, m)]\<rparr>"

text \<open>
  \<open>flushIfServerless\<close> is imported from \<open>./utils\<close>, which is missing: it is a parameter
  \<open>flush\<close> acting on the SDK's state; a flush never throws (spec 4.4).
\<close>

type_synonym ('s, 'h) HandleServerError =
  "HandlerInput \<Rightarrow> ('s, 'h) server \<Rightarrow> unknown result \<times> ('s, 'h) server"

text \<open>
  \<open>defaultErrorHandler\<close>: \<open>console.error(error && error.stack)\<close>, returning nothing.
\<close>

definition defaultErrorHandler :: "('s, 'h) HandleServerError" where
  "defaultErrorHandler input w =
     (let logged = (if truthy (input_error input)
                    then get_prop ''stack'' (input_error input)
                    else input_error input)
      in (Inr (Prim Undefined), w\<lparr>console_error := console_error w @ [logged]\<rparr>))"

text \<open>
  \<open>handleErrorWithSentry\<close>: the wrapper it returns, applied to an input. The handler
  argument is optional and defaults to \<open>defaultErrorHandler\<close>. The promise the wrapper
  returns settles with the outcome of the wrapped handler: \<open>Inr\<close> its value, \<open>Inl\<close> what
  it threw.
\<close>

definition handleErrorWithSentry ::
  "('s \<Rightarrow> 's) \<Rightarrow> ('s, 'h) HandleServerError option \<Rightarrow> ('s, 'h) HandleServerError" where
  "handleErrorWithSentry flush handleErrorOpt input w =
     (let handleError = (case handleErrorOpt of None \<Rightarrow> defaultErrorHandler | Some h \<Rightarrow> h)
      in if isNotFoundError input then handleError input w
         else
           (let w1 = captureException (input_error input)
                       \<lparr>mechanism_type = ''sveltekit'', handled = False\<rparr> w;
                w2 = w1\<lparr>sdk := flush (sdk w1)\<rparr>
            in handleError input w2))"

section \<open>The GlobalHandlers integration\<close>

datatype GlobalHandlersIntegrationsOptionKeys = onerror | onunhandledrejection

text \<open>
  \<open>Record<GlobalHandlersIntegrationsOptionKeys, boolean>\<close>: a value for each of the two keys.
\<close>

type_synonym GlobalHandlersIntegrations = "GlobalHandlersIntegrationsOptionKeys \<Rightarrow> bool"

text \<open>The two install functions that the slots of \<open>_installFunc\<close> can refer to.\<close>

datatype installFunction =
    installGlobalOnErrorHandler
  | installGlobalOnUnhandledRejectionHandler

record GlobalHandlers =
  name :: string
  options :: GlobalHandlersIntegrations
  installFunc :: "GlobalHandlersIntegrationsOptionKeys \<Rightarrow> installFunction option"

text \<open>
  The constructor: both options default to true and are overridden by the options passed;
  each slot of \<open>_installFunc\<close> starts with its install function.
\<close>

definition GlobalHandlers_id :: string where
  "GlobalHandlers_id = ''GlobalHandlers''"

definition initialInstallFunc :: "GlobalHandlersIntegrationsOptionKeys \<Rightarrow> installFunction" where
  "initialInstallFunc key =
     (case key of
        onerror \<Rightarrow> installGlobalOnErrorHandler
      | onunhandledrejection \<Rightarrow> installGlobalOnUnhandledRejectionHandler)"

definition constructor ::
  "(GlobalHandlersIntegrationsOptionKeys \<Rightarrow> bool option) \<Rightarrow> GlobalHandlers" where
  "constructor opts =
     \<lparr>name = GlobalHandlers_id,
      options = (\<lambda>key. case opts key of None \<Rightarrow> True | Some b \<Rightarrow> b),
      installFunc = (\<lambda>key. Some (initialInstallFunc key))\<rparr>"

text \<open>
  The page the integration is set up in: \<open>Error.stackTraceLimit\<close>, the logger's output,
  the calls of install functions made so far (in order), and everything else the install
  functions act on (the handler registry and the instrumented globals).
\<close>

record 'g page =
  stackTraceLimit :: nat
  logged :: "string list"
  installs :: "installFunction list"
  globals :: 'g

text \<open>
  \<open>globalHandlerLog\<close>; \<open>DEBUG_BUILD\<close> comes from the build (\<open>../debug-build\<close>) and is a
  parameter.
\<close>

definition key_name :: "GlobalHandlersIntegrationsOptionKeys \<Rightarrow> string" where
  "key_name key =
     (case key of
        onerror \<Rightarrow> ''onerror''
      | onunhandledrejection \<Rightarrow> ''onunhandledrejection'')"

definition globalHandlerLog :: "bool \<Rightarrow> string \<Rightarrow> 'g page \<Rightarrow> 'g page" where
  "globalHandlerLog DEBUG_BUILD type p =
     (if DEBUG_BUILD
      then p\<lparr>logged := logged p @ [''Global Handler attached: '' @ type]\<rparr>
      else p)"

text \<open>
  Calling an install function. What it registers goes through the instrumentation modules
  of the utils package, so its effect on the globals is the parameter \<open>effect\<close>; an
  install function returns normally. The call itself is recorded in \<open>installs\<close>.
\<close>

definition call_install ::
  "(installFunction \<Rightarrow> 'g \<Rightarrow> 'g) \<Rightarrow> installFunction \<Rightarrow> 'g page \<Rightarrow> 'g page" where
  "call_install effect f p =
     p\<lparr>installs := installs p @ [f], globals := effect f (globals p)\<rparr>"

text \<open>
  \<open>setupOnce\<close>. The body of the \<open>for (const key in options)\<close> loop for one key, and the
  loop over the keys of \<open>_options\<close> in their order of creation.
\<close>

definition setupOnce_key ::
  "bool \<Rightarrow> (installFunction \<Rightarrow> 'g \<Rightarrow> 'g) \<Rightarrow> GlobalHandlersIntegrationsOptionKeys
     \<Rightarrow> GlobalHandlers \<times> 'g page \<Rightarrow> GlobalHandlers \<times> 'g page" where
  "setupOnce_key DEBUG_BUILD effect key s =
     (case s of (this, p) \<Rightarrow>
        (case installFunc this key of
           Some f \<Rightarrow>
             if options this key
             then (this\<lparr>installFunc := (installFunc this)(key := None)\<rparr>,
                   call_install effect f (globalHandlerLog DEBUG_BUILD (key_name key) p))
             else (this, p)
         | None \<Rightarrow> (this, p)))"

definition setupOnce ::
  "bool \<Rightarrow> (installFunction \<Rightarrow> 'g \<Rightarrow> 'g) \<Rightarrow> GlobalHandlers \<times> 'g page
     \<Rightarrow> GlobalHandlers \<times> 'g page" where
  "setupOnce DEBUG_BUILD effect s =
     (case s of (this, p) \<Rightarrow>
        fold (setupOnce_key DEBUG_BUILD effect) [onerror, onunhandledrejection]
          (this, p\<lparr>stackTraceLimit := 50\<rparr>))"

text \<open>
  The state of one slot against the calls made since the instance was constructed: the
  slot still holds its install function and that function has not been called, or the
  slot is undefined and the function has been called once.
\<close>

definition slot_ok ::
  "GlobalHandlers \<Rightarrow> installFunction list \<Rightarrow> GlobalHandlersIntegrationsOptionKeys \<Rightarrow> bool" where
  "slot_ok this new key =
     (installFunc this key = Some (initialInstallFunc key)
        \<and> count_list new (initialInstallFunc key) = 0
      \<or> installFunc this key = None \<and> count_list new (initialInstallFunc key) = 1)"

section \<open>Instrumenting the global error handler\<close>

text \<open>
  A value of \<open>GLOBAL_OBJ.onerror\<close>: a handler of the host application, with its
  \<open>__SENTRY_LOADER__\<close> mark and its body (called with \<open>this\<close> and the \<open>arguments\<close>,
  acting on the page, returning a value or throwing), or the function that
  \<open>instrumentError\<close> assigns. The latter is a closure over the module variable
  \<open>_oldOnErrorHandler\<close>, which it reads when it is called.
\<close>

datatype 'p onerrorHandler =
    HostHandler bool "unknown \<Rightarrow> unknown list \<Rightarrow> 'p \<Rightarrow> unknown result \<times> 'p"
  | SentryOnError

fun SENTRY_LOADER :: "'p onerrorHandler \<Rightarrow> bool" where
  "SENTRY_LOADER (HostHandler marked body) = marked"
| "SENTRY_LOADER SentryOnError = False"

fun SENTRY_INSTRUMENTED :: "'p onerrorHandler \<Rightarrow> bool" where
  "SENTRY_INSTRUMENTED (HostHandler marked body) = False"
| "SENTRY_INSTRUMENTED SentryOnError = True"

text \<open>
  The global object's \<open>onerror\<close> (\<open>None\<close> for \<open>null\<close>), the module variable
  \<open>_oldOnErrorHandler\<close> (initially \<open>null\<close>), and the rest of the page: the state that the
  registered handlers and the host's handler act on. The handlers do not assign
  \<open>onerror\<close> themselves.
\<close>

record 'p window =
  GLOBAL_OBJ_onerror :: "'p onerrorHandler option"
  oldOnErrorHandler :: "'p onerrorHandler option"
  page_state :: 'p

text \<open>
  The handler data, with the properties \<open>column\<close>, \<open>error\<close>, \<open>line\<close>, \<open>msg\<close> and \<open>url\<close>.
\<close>

record HandlerDataError =
  data_column :: unknown
  data_error :: unknown
  data_line :: unknown
  data_msg :: unknown
  data_url :: unknown

text \<open>The \<open>n\<close>-th formal parameter: the \<open>n\<close>-th argument, undefined when it was not passed.\<close>

definition argument :: "unknown list \<Rightarrow> nat \<Rightarrow> unknown" where
  "argument arguments n = (if n < length arguments then arguments ! n else Prim Undefined)"

definition handlerData :: "unknown list \<Rightarrow> HandlerDataError" where
  "handlerData arguments =
     \<lparr>data_column = argument arguments 3,
      data_error = argument arguments 4,
      data_line = argument arguments 2,
      data_msg = argument arguments 0,
      data_url = argument arguments 1\<rparr>"

text \<open>
  \<open>instrumentError\<close>: remember the handler in place, put the instrumented one there.
\<close>

definition instrumentError :: "'p window \<Rightarrow> 'p window" where
  "instrumentError w =
     w\<lparr>oldOnErrorHandler := GLOBAL_OBJ_onerror w, GLOBAL_OBJ_onerror := Some SentryOnError\<rparr>"

text \<open>
  Calling a handler. \<open>triggerHandlers\<close> comes from the missing \<open>_handlers\<close> module and
  is a parameter: it acts on the page and may throw. The instrumented function calls it,
  then tests \<open>_oldOnErrorHandler\<close> and either applies it to the same \<open>this\<close> and
  \<open>arguments\<close> or returns \<open>false\<close>. The old handler may be any handler, the instrumented
  one included, so the call need not return: \<open>None\<close> stands for a call that does not.
\<close>

partial_function (option) call_onerror ::
  "(string \<Rightarrow> HandlerDataError \<Rightarrow> 'p \<Rightarrow> unit result \<times> 'p) \<Rightarrow> 'p onerrorHandler
     \<Rightarrow> unknown \<Rightarrow> unknown list \<Rightarrow> 'p window \<Rightarrow> (unknown result \<times> 'p window) option" where
  "call_onerror triggerHandlers f this arguments w =
     (case f of
        HostHandler marked body \<Rightarrow>
          (case body this arguments (page_state w) of
             (r, p) \<Rightarrow> Some (r, w\<lparr>page_state := p\<rparr>))
      | SentryOnError \<Rightarrow>
          (case triggerHandlers ''error'' (handlerData arguments) (page_state w) of
             (Inl e, p) \<Rightarrow> Some (Inl e, w\<lparr>page_state := p\<rparr>)
           | (Inr u, p) \<Rightarrow>
               (case oldOnErrorHandler w of
                  Some old \<Rightarrow>
                    if \<not> SENTRY_LOADER old
                    then call_onerror triggerHandlers old this arguments (w\<lparr>page_state := p\<rparr>)
                    else Some (Inr (Prim (PBool False)), w\<lparr>page_state := p\<rparr>)
                | None \<Rightarrow> Some (Inr (Prim (PBool False)), w\<lparr>page_state := p\<rparr>))))"

text \<open>An error event reaches the page: the global \<open>onerror\<close>, if any, is called.\<close>

definition invoke_global_onerror ::
  "(string \<Rightarrow> HandlerDataError \<Rightarrow> 'p \<Rightarrow> unit result \<times> 'p)
     \<Rightarrow> unknown \<Rightarrow> unknown list \<Rightarrow> 'p window \<Rightarrow> (unknown result \<times> 'p window) option" where
  "invoke_global_onerror triggerHandlers this arguments w =
     (case GLOBAL_OBJ_onerror w of
        None \<Rightarrow> Some (Inr (Prim Undefined), w)
      | Some f \<Rightarrow> call_onerror triggerHandlers f this arguments w)"

section \<open>Events and the initial stack frame\<close>

text \<open>
  Events are objects that the handlers build and then change in place, so they live in a
  store. An address refers to an object; an object is an event, the object under
  \<open>event.exception\<close>, the array under \<open>exception.values\<close>, one exception of that array, its
  \<open>stacktrace\<close> object, or the array under \<open>stacktrace.frames\<close>. Stack frames are never
  changed once built and are kept in the frames array by value. A property that is
  missing (or undefined) is \<open>None\<close>.
\<close>

type_synonym addr = nat

record StackFrame =
  colno :: prim
  filename :: "string option"
  function' :: "string option"
  in_app :: "bool option"
  lineno :: prim

record Event =
  exception :: "addr option"
  other_properties :: "(string \<times> unknown) list"

record ExceptionContainer =
  values' :: "addr option"

record Exception' =
  type' :: "string option"
  value' :: "string option"
  stacktrace :: "addr option"

record Stacktrace =
  frames :: "addr option"

datatype object =
    EventObj Event
  | ExceptionContainerObj ExceptionContainer
  | ValuesArr "addr list"
  | ExceptionObj Exception'
  | StacktraceObj Stacktrace
  | FramesArr "StackFrame list"

type_synonym heap = "object list"

definition lookup :: "heap \<Rightarrow> addr \<Rightarrow> object option" where
  "lookup h a = (if a < length h then Some (h ! a) else None)"

text \<open>A new object gets the next free address; a store replaces the object at an address.\<close>

definition alloc :: "heap \<Rightarrow> object \<Rightarrow> addr \<times> heap" where
  "alloc h obj = (length h, h @ [obj])"

definition store :: "heap \<Rightarrow> addr \<Rightarrow> object \<Rightarrow> heap" where
  "store h a obj = h[a := obj]"

text \<open>
  Reading an object of a given kind through a reference. The types of the source make each
  reference point to an object of its kind; on a store that breaks them the model stops
  with \<open>None\<close>.
\<close>

definition get_event :: "heap \<Rightarrow> addr \<Rightarrow> Event option" where
  "get_event h a = (case lookup h a of Some (EventObj x) \<Rightarrow> Some x | _ \<Rightarrow> None)"

definition get_container :: "heap \<Rightarrow> addr \<Rightarrow> ExceptionContainer option" where
  "get_container h a = (case lookup h a of Some (ExceptionContainerObj x) \<Rightarrow> Some x | _ \<Rightarrow> None)"

definition get_values :: "heap \<Rightarrow> addr \<Rightarrow> addr list option" where
  "get_values h a = (case lookup h a of Some (ValuesArr x) \<Rightarrow> Some x | _ \<Rightarrow> None)"

definition get_exception :: "heap \<Rightarrow> addr \<Rightarrow> Exception' option" where
  "get_exception h a = (case lookup h a of Some (ExceptionObj x) \<Rightarrow> Some x | _ \<Rightarrow> None)"

definition get_stacktrace :: "heap \<Rightarrow> addr \<Rightarrow> Stacktrace option" where
  "get_stacktrace h a = (case lookup h a of Some (StacktraceObj x) \<Rightarrow> Some x | _ \<Rightarrow> None)"

definition get_frames :: "heap \<Rightarrow> addr \<Rightarrow> StackFrame list option" where
  "get_frames h a = (case lookup h a of Some (FramesArr x) \<Rightarrow> Some x | _ \<Rightarrow> None)"

text \<open>
  \<open>parseInt(x, 10)\<close> on a primitive, \<open>None\<close> for NaN: the value is turned into a string,
  leading white space is skipped, then an optional sign and the longest run of decimal
  digits are read; without a digit the result is NaN. A number's string is its decimal
  numeral (this holds for the integers below \<open>10^21\<close> in size). The white space and
  line terminators of the language among the characters up to U+00FF are the tab, the
  line feed, the vertical tab, the form feed, the carriage return, the space and the
  no-break space U+00A0.
\<close>

definition is_whitespace :: "char \<Rightarrow> bool" where
  "is_whitespace c =
     (c \<in> {CHR 0x09, CHR 0x0A, CHR 0x0B, CHR 0x0C, CHR 0x0D, CHR 0x20, CHR 0xA0})"

definition digits_value :: "string \<Rightarrow> int" where
  "digits_value ds = foldl (\<lambda>n c. 10 * n + digit_value c) 0 ds"

definition parseInt_string :: "string \<Rightarrow> int option" where
  "parseInt_string s =
     (let t = dropWhile is_whitespace s;
          negative = (t \<noteq> [] \<and> hd t = CHR ''-'');
          u = (if t \<noteq> [] \<and> (hd t = CHR ''-'' \<or> hd t = CHR ''+'') then tl t else t);
          ds = takeWhile is_digit u
      in if ds = [] then None
         else Some (if negative then - digits_value ds else digits_value ds))"

fun parseInt :: "prim \<Rightarrow> int option" where
  "parseInt (PNum n) = Some n"
| "parseInt (PStr s) = parseInt_string s"
| "parseInt _ = None"

definition isNaN :: "int option \<Rightarrow> bool" where
  "isNaN n = (n = None)"

text \<open>\<open>isString\<close> of the utils package: true of strings only.\<close>

fun isString :: "prim \<Rightarrow> bool" where
  "isString (PStr s) = True"
| "isString _ = False"

fun string_of :: "prim \<Rightarrow> string" where
  "string_of (PStr s) = s"
| "string_of _ = []"

text \<open>
  \<open>_enhanceEventWithInitialFrame\<close>. The five assignments \<open>x.p = x.p || fresh\<close> come first,
  each reading the object it assigns to and allocating the fresh object or array only when
  the property is missing; the first element of \<open>values\<close> is written at index 0. Then the
  frame is pushed if \<open>frames\<close> is empty. \<open>getLocationHref()\<close> reads the page's location and
  is the parameter \<open>locationHref\<close>. The result is the store and the reference returned.
\<close>

definition ensure_exception :: "heap \<Rightarrow> addr \<Rightarrow> (addr \<times> heap) option" where
  "ensure_exception h event =
     do {
       x \<leftarrow> get_event h event;
       let (e, h1) = (case exception x of
                        Some e \<Rightarrow> (e, h)
                      | None \<Rightarrow> alloc h (ExceptionContainerObj \<lparr>values' = None\<rparr>));
       Some (e, store h1 event (EventObj (x\<lparr>exception := Some e\<rparr>)))
     }"

definition ensure_values :: "heap \<Rightarrow> addr \<Rightarrow> (addr \<times> heap) option" where
  "ensure_values h e =
     do {
       x \<leftarrow> get_container h e;
       let (ev, h1) = (case values' x of
                         Some ev \<Rightarrow> (ev, h)
                       | None \<Rightarrow> alloc h (ValuesArr []));
       Some (ev, store h1 e (ExceptionContainerObj (x\<lparr>values' := Some ev\<rparr>)))
     }"

definition ensure_first :: "heap \<Rightarrow> addr \<Rightarrow> (addr \<times> heap) option" where
  "ensure_first h ev =
     do {
       xs \<leftarrow> get_values h ev;
       let (ev0, h1) = (case xs of
                          a # _ \<Rightarrow> (a, h)
                        | [] \<Rightarrow> alloc h (ExceptionObj
                                   \<lparr>type' = None, value' = None, stacktrace = None\<rparr>));
       Some (ev0, store h1 ev (ValuesArr (ev0 # tl xs)))
     }"

definition ensure_stacktrace :: "heap \<Rightarrow> addr \<Rightarrow> (addr \<times> heap) option" where
  "ensure_stacktrace h ev0 =
     do {
       x \<leftarrow> get_exception h ev0;
       let (ev0s, h1) = (case stacktrace x of
                           Some s \<Rightarrow> (s, h)
                         | None \<Rightarrow> alloc h (StacktraceObj \<lparr>frames = None\<rparr>));
       Some (ev0s, store h1 ev0 (ExceptionObj (x\<lparr>stacktrace := Some ev0s\<rparr>)))
     }"

definition ensure_frames :: "heap \<Rightarrow> addr \<Rightarrow> (addr \<times> heap) option" where
  "ensure_frames h ev0s =
     do {
       x \<leftarrow> get_stacktrace h ev0s;
       let (ev0sf, h1) = (case frames x of
                            Some f \<Rightarrow> (f, h)
                          | None \<Rightarrow> alloc h (FramesArr []));
       Some (ev0sf, store h1 ev0s (StacktraceObj (x\<lparr>frames := Some ev0sf\<rparr>)))
     }"

definition initial_frame :: "string \<Rightarrow> prim \<Rightarrow> prim \<Rightarrow> prim \<Rightarrow> StackFrame" where
  "initial_frame locationHref url line column =
     \<lparr>colno = (if isNaN (parseInt column) then Undefined else column),
      filename = Some (if isString url \<and> length (string_of url) > 0
                       then string_of url else locationHref),
      function' = Some ''?'',
      in_app = Some True,
      lineno = (if isNaN (parseInt line) then Undefined else line)\<rparr>"

definition enhanceEventWithInitialFrame ::
  "string \<Rightarrow> heap \<Rightarrow> addr \<Rightarrow> prim \<Rightarrow> prim \<Rightarrow> prim \<Rightarrow> (heap \<times> addr) option" where
  "enhanceEventWithInitialFrame locationHref h event url line column =
     do {
       (e, h1) \<leftarrow> ensure_exception h event;
       (ev, h2) \<leftarrow> ensure_values h1 e;
       (ev0, h3) \<leftarrow> ensure_first h2 ev;
       (ev0s, h4) \<leftarrow> ensure_stacktrace h3 ev0;
       (ev0sf, h5) \<leftarrow> ensure_frames h4 ev0s;
       fs \<leftarrow> get_frames h5 ev0sf;
       let h6 = (if length fs = 0
                 then store h5 ev0sf (FramesArr (fs @ [initial_frame locationHref url line column]))
                 else h5);
       Some (h6, event)
     }"

text \<open>
  An event whose references point to objects of their kinds, as far as
  \<open>_enhanceEventWithInitialFrame\<close> follows them.
\<close>

definition well_typed :: "heap \<Rightarrow> addr \<Rightarrow> bool" where
  "well_typed h event =
     (case get_event h event of None \<Rightarrow> False | Some x \<Rightarrow>
      (case exception x of None \<Rightarrow> True | Some e \<Rightarrow>
      (case get_container h e of None \<Rightarrow> False | Some c \<Rightarrow>
      (case values' c of None \<Rightarrow> True | Some v \<Rightarrow>
      (case get_values h v of None \<Rightarrow> False | Some [] \<Rightarrow> True | Some (a # _) \<Rightarrow>
      (case get_exception h a of None \<Rightarrow> False | Some x0 \<Rightarrow>
      (case stacktrace x0 of None \<Rightarrow> True | Some s \<Rightarrow>
      (case get_stacktrace h s of None \<Rightarrow> False | Some st \<Rightarrow>
      (case frames st of None \<Rightarrow> True | Some f \<Rightarrow> get_frames h f \<noteq> None)))))))))"

text \<open>
  The frames found at \<open>event.exception.values[0].stacktrace.frames\<close>; none when a part of
  the path is missing.
\<close>

definition first_element :: "'a list \<Rightarrow> 'a option" where
  "first_element xs = (case xs of [] \<Rightarrow> None | a # _ \<Rightarrow> Some a)"

definition frames_of :: "heap \<Rightarrow> addr \<Rightarrow> StackFrame list" where
  "frames_of h event =
     (case do {
             x \<leftarrow> get_event h event;
             e \<leftarrow> exception x;
             c \<leftarrow> get_container h e;
             v \<leftarrow> values' c;
             xs \<leftarrow> get_values h v;
             a \<leftarrow> first_element xs;
             x0 \<leftarrow> get_exception h a;
             s \<leftarrow> stacktrace x0;
             st \<leftarrow> get_stacktrace h s;
             f \<leftarrow> frames st;
             get_frames h f
           }
      of None \<Rightarrow> [] | Some fs \<Rightarrow> fs)"

text \<open>
  What a call of \<open>_enhanceEventWithInitialFrame\<close> does to the store: it returns the
  reference it was given; an event that has frames keeps its store as it is, and an event
  without frames has exactly the initial frame afterwards.
\<close>

definition enhanced_in_place ::
  "string \<Rightarrow> heap \<Rightarrow> addr \<Rightarrow> prim \<Rightarrow> prim \<Rightarrow> prim \<Rightarrow> bool" where
  "enhanced_in_place locationHref h event url line column =
     (case enhanceEventWithInitialFrame locationHref h event url line column of
        None \<Rightarrow> False
      | Some (h', returned) \<Rightarrow>
          returned = event \<and>
          (if frames_of h event = []
           then frames_of h' event = [initial_frame locationHref url line column]
           else h' = h))"

section \<open>Capturing an XHR breadcrumb to a replay\<close>


type_synonym headers = "(string \<times> string option) list"










text \<open>\<open>s.split(sep)\<close> for a non-empty separator.\<close>

function split_from :: "string \<Rightarrow> string \<Rightarrow> string \<Rightarrow> string list" where
  "split_from sep acc s =
     (if s = [] then [rev acc]
      else if sep \<noteq> [] \<and> take (length sep) s = sep
      then rev acc # split_from sep [] (drop (length sep) s)
      else split_from sep (hd s # acc) (tl s))"
  by pat_completeness auto
termination
  by (relation "measure (\<lambda>(sep, acc, s). length s)") (auto simp: neq_Nil_conv)

definition split :: "string \<Rightarrow> string \<Rightarrow> string list" where
  "split s sep = split_from sep [] s"


















section \<open>Properties of the breadcrumb buffer\<close>

lemma push_capacity: "capacity (push b buf) = capacity buf"
  by (simp add: push_def Let_def)

lemma addBreadcrumbs_capacity: "capacity (addBreadcrumbs calls buf) = capacity buf"
  by (induction calls arbitrary: buf) (auto simp: addBreadcrumb_def push_capacity)

lemma drop_overflow_append:
  "drop (length (drop (length xs - n) xs @ ys) - n) (drop (length xs - n) xs @ ys) =
     drop (length (xs @ ys) - n) (xs @ ys)"
proof (cases "length xs \<le> n")
  case True
  then show ?thesis by simp
next
  case False
  then have "length (drop (length xs - n) xs @ ys) - n = length ys"
    by simp
  moreover have "length (xs @ ys) - n = (length xs - n) + length ys"
    using False by simp
  ultimately show ?thesis
    using False by (simp add: add.commute)
qed

lemma addBreadcrumbs_items:
  "calls \<noteq> [] \<Longrightarrow>
   items (addBreadcrumbs calls buf) =
     drop (length (items buf @ map (\<lambda>(now, b). stamp now b) calls) - capacity buf)
       (items buf @ map (\<lambda>(now, b). stamp now b) calls)"
proof (induction calls arbitrary: buf)
  case Nil
  then show ?case by simp
next
  case (Cons c calls)
  obtain now b where c: "c = (now, b)" by (cases c)
  show ?case
  proof (cases "calls = []")
    case True
    then show ?thesis by (simp add: c addBreadcrumb_def push_def Let_def)
  next
    case False
    let ?ys = "map (\<lambda>(now, b). stamp now b) calls"
    let ?xs = "items buf @ [stamp now b]"
    have "items (addBreadcrumbs (c # calls) buf) =
            items (addBreadcrumbs calls (addBreadcrumb now b buf))"
      by (simp add: c)
    also have "\<dots> = drop (length (drop (length ?xs - capacity buf) ?xs @ ?ys) - capacity buf)
                       (drop (length ?xs - capacity buf) ?xs @ ?ys)"
      using Cons.IH [OF False, of "addBreadcrumb now b buf"]
      by (simp add: addBreadcrumb_def push_def Let_def)
    also have "\<dots> = drop (length (?xs @ ?ys) - capacity buf) (?xs @ ?ys)"
      by (rule drop_overflow_append)
    finally show ?thesis by (simp add: c)
  qed
qed

lemma stamp_id: "timestamp b \<noteq> None \<Longrightarrow> stamp now b = b"
  by (auto simp: stamp_def)

lemma stamp_all_id:
  "\<forall>c \<in> set calls. timestamp (snd c) \<noteq> None \<Longrightarrow>
   map (\<lambda>(now, b). stamp now b) calls = map snd calls"
  by (induction calls) (auto simp: stamp_id)

text \<open>
  C3. After more than N \<open>addBreadcrumb\<close> calls on a buffer of capacity N (whatever it held
  before), the buffer holds exactly the last N breadcrumbs of the sequence, in the order
  they were added. The breadcrumbs are the ones passed, a missing timestamp being filled
  with the clock reading of its call (\<open>stamp_all_id\<close>: nothing is filled when each
  breadcrumb carries its timestamp).
\<close>

theorem addBreadcrumb_retains_last_N:
  "length calls > capacity buf \<Longrightarrow>
   toArray (addBreadcrumbs calls buf) =
     drop (length calls - capacity buf) (map (\<lambda>(now, b). stamp now b) calls)
   \<and> length (toArray (addBreadcrumbs calls buf)) = capacity buf"
proof -
  assume long: "length calls > capacity buf"
  then have ne: "calls \<noteq> []" by auto
  have 1: "toArray (addBreadcrumbs calls buf) =
           drop (length calls - capacity buf) (map (\<lambda>(now, b). stamp now b) calls)"
    using long by (simp add: toArray_def addBreadcrumbs_items [OF ne])
  then show ?thesis using long by simp
qed

theorem addBreadcrumb_retains_last_N_witness:
  "length [(10, crumb ''a'' None), (11, crumb ''b'' (Some 5)), (12::int, crumb ''c'' None)]
     > capacity \<lparr>capacity = 2, items = [crumb ''z'' (Some 1)]\<rparr>
   \<and> toArray (addBreadcrumbs
        [(10, crumb ''a'' None), (11, crumb ''b'' (Some 5)), (12, crumb ''c'' None)]
        \<lparr>capacity = 2, items = [crumb ''z'' (Some 1)]\<rparr>)
      = [crumb ''b'' (Some 5), crumb ''c'' (Some 12)]"
  using addBreadcrumb_retains_last_N
    [of "\<lparr>capacity = 2, items = [crumb ''z'' (Some 1)]\<rparr>"
        "[(10, crumb ''a'' None), (11, crumb ''b'' (Some 5)), (12, crumb ''c'' None)]"]
  by (simp add: stamp_def crumb_def)

section \<open>Properties of the event pipeline\<close>

lemma captureEvent_passed:
  assumes "dedupe e st = (Some e, st1)" and "runProcessors (processors cfg) e = Some e"
    and "random (draws st1) < sampleRate cfg"
  shows "captureEvent cfg random e st =
           (Some (event_id e), st1\<lparr>draws := Suc (draws st1), transport := transport st1 @ [e]\<rparr>)"
  using assms by (simp add: captureEvent_def beforeSampling_def sampling_def Let_def)

lemma captureEvent_deduped:
  assumes "dedupe e st = (None, st1)"
  shows "captureEvent cfg random e st = (None, st1\<lparr>dropped := dropped st1 @ [''dedupe'']\<rparr>)"
  using assms by (simp add: captureEvent_def beforeSampling_def)

text \<open>
  C4. The dedup processor keeps one event, the last it let through. On a client that
  remembers no event, with the other steps letting the events through (processors that
  return them, sample rate 1, draws below 1): capturing an error and then an identical
  one delivers the first and drops the second, counting it once under \<open>dedupe\<close>; capturing
  it a third time after a different error delivers it again, so that two events of that
  error are delivered in all.
\<close>

theorem dedupe_compares_with_last_event_only:
  assumes fresh: "previousEvent st = None"
    and same: "signature a2 = signature a1" "signature a3 = signature a1"
    and different: "signature b \<noteq> signature a1"
    and through: "\<forall>e \<in> {a1, b, a3}. runProcessors (processors cfg) e = Some e"
    and rate: "sampleRate cfg = 1" "\<forall>n. random n < 1"
  shows "captureEvents cfg random [a1, a2] st =
           st\<lparr>previousEvent := Some a1, dropped := dropped st @ [''dedupe''],
              draws := draws st + 1, transport := transport st @ [a1]\<rparr>
         \<and> captureEvents cfg random [a1, a2, b, a3] st =
           st\<lparr>previousEvent := Some a3, dropped := dropped st @ [''dedupe''],
              draws := draws st + 3, transport := transport st @ [a1, b, a3]\<rparr>"
proof -
  let ?s1 = "st\<lparr>previousEvent := Some a1, draws := Suc (draws st),
                 transport := transport st @ [a1]\<rparr>"
  let ?s2 = "?s1\<lparr>dropped := dropped st @ [''dedupe'']\<rparr>"
  let ?s3 = "?s2\<lparr>previousEvent := Some b, draws := Suc (Suc (draws st)),
                  transport := transport st @ [a1, b]\<rparr>"
  let ?s4 = "?s3\<lparr>previousEvent := Some a3, draws := Suc (Suc (Suc (draws st))),
                  transport := transport st @ [a1, b, a3]\<rparr>"
  have lt: "\<And>n. random n < sampleRate cfg"
    using rate by simp
  have 1: "captureEvent cfg random a1 st = (Some (event_id a1), ?s1)"
    using fresh through lt
    by (subst captureEvent_passed [where ?st1.0 = "st\<lparr>previousEvent := Some a1\<rparr>"])
       (simp_all add: dedupe_def)
  have 2: "captureEvent cfg random a2 ?s1 = (None, ?s2)"
    using same
    by (subst captureEvent_deduped [where ?st1.0 = ?s1]) (simp_all add: dedupe_def)
  have 3: "captureEvent cfg random b ?s2 = (Some (event_id b), ?s3)"
    using different through lt
    by (subst captureEvent_passed [where ?st1.0 = "?s2\<lparr>previousEvent := Some b\<rparr>"])
       (auto simp: dedupe_def)
  have 4: "captureEvent cfg random a3 ?s3 = (Some (event_id a3), ?s4)"
    using different same through lt
    by (subst captureEvent_passed [where ?st1.0 = "?s3\<lparr>previousEvent := Some a3\<rparr>"])
       (auto simp: dedupe_def)
  have "captureEvents cfg random [a1, a2] st = ?s2"
    by (simp only: captureEvents.simps 1 2 snd_conv)
  moreover have "captureEvents cfg random [a1, a2, b, a3] st = ?s4"
    by (simp only: captureEvents.simps 1 2 3 4 snd_conv)
  ultimately show ?thesis
    by simp
qed

theorem dedupe_compares_with_last_event_only_witness:
  "previousEvent \<lparr>previousEvent = None, dropped = [], draws = 0, transport = []\<rparr> = None
   \<and> signature \<lparr>event_id = ''2'', event_message = ''boom'', event_stack = [''f@app.js:1'']\<rparr>
       = signature \<lparr>event_id = ''1'', event_message = ''boom'', event_stack = [''f@app.js:1'']\<rparr>
   \<and> signature \<lparr>event_id = ''3'', event_message = ''other'', event_stack = [''g@app.js:9'']\<rparr>
       \<noteq> signature \<lparr>event_id = ''1'', event_message = ''boom'', event_stack = [''f@app.js:1'']\<rparr>
   \<and> captureEvents \<lparr>sampleRate = 1, processors = []\<rparr> (\<lambda>n. 1 / 2)
       [\<lparr>event_id = ''1'', event_message = ''boom'', event_stack = [''f@app.js:1'']\<rparr>,
        \<lparr>event_id = ''2'', event_message = ''boom'', event_stack = [''f@app.js:1'']\<rparr>,
        \<lparr>event_id = ''3'', event_message = ''other'', event_stack = [''g@app.js:9'']\<rparr>,
        \<lparr>event_id = ''4'', event_message = ''boom'', event_stack = [''f@app.js:1'']\<rparr>]
       \<lparr>previousEvent = None, dropped = [], draws = 0, transport = []\<rparr>
     = \<lparr>previousEvent =
          Some \<lparr>event_id = ''4'', event_message = ''boom'', event_stack = [''f@app.js:1'']\<rparr>,
        dropped = [''dedupe''], draws = 3,
        transport =
          [\<lparr>event_id = ''1'', event_message = ''boom'', event_stack = [''f@app.js:1'']\<rparr>,
           \<lparr>event_id = ''3'', event_message = ''other'', event_stack = [''g@app.js:9'']\<rparr>,
           \<lparr>event_id = ''4'', event_message = ''boom'', event_stack = [''f@app.js:1'']\<rparr>]\<rparr>"
  using dedupe_compares_with_last_event_only
    [of "\<lparr>previousEvent = None, dropped = [], draws = 0, transport = []\<rparr>"
        "\<lparr>event_id = ''2'', event_message = ''boom'', event_stack = [''f@app.js:1'']\<rparr>"
        "\<lparr>event_id = ''1'', event_message = ''boom'', event_stack = [''f@app.js:1'']\<rparr>"
        "\<lparr>event_id = ''4'', event_message = ''boom'', event_stack = [''f@app.js:1'']\<rparr>"
        "\<lparr>event_id = ''3'', event_message = ''other'', event_stack = [''g@app.js:9'']\<rparr>"
        "\<lparr>sampleRate = 1, processors = []\<rparr>" "\<lambda>n. 1 / 2"]
  by (simp add: signature_def del: captureEvents.simps)

lemma beforeSampling_previousEvent:
  "previousEvent st = previousEvent st' \<Longrightarrow>
   fst (beforeSampling cfg e st) = fst (beforeSampling cfg e st')
   \<and> previousEvent (snd (beforeSampling cfg e st)) = previousEvent (snd (beforeSampling cfg e st'))"
  by (auto simp: beforeSampling_def dedupe_def split: option.splits)

lemma passing_previousEvent:
  "previousEvent st = previousEvent st' \<Longrightarrow> passing cfg es st = passing cfg es st'"
proof (induction es arbitrary: st st')
  case Nil
  show ?case by simp
next
  case (Cons e es)
  from beforeSampling_previousEvent [OF Cons.prems, of cfg e]
  have f: "fst (beforeSampling cfg e st) = fst (beforeSampling cfg e st')"
    and p: "previousEvent (snd (beforeSampling cfg e st))
              = previousEvent (snd (beforeSampling cfg e st'))"
    by simp_all
  from Cons.IH [OF p] f show ?case
    by (cases "beforeSampling cfg e st"; cases "beforeSampling cfg e st'")
       (auto split: option.splits)
qed

lemma sampling_draws: "draws (snd (sampling cfg random e st)) = Suc (draws st)"
  by (simp add: sampling_def Let_def)

lemma sampling_drops:
  "fst (sampling cfg random e st) = (if random (draws st) \<ge> sampleRate cfg then None else Some e)"
  by (simp add: sampling_def Let_def)

lemma sampling_keeps:
  "previousEvent (snd (sampling cfg random e st)) = previousEvent st
   \<and> transport (snd (sampling cfg random e st)) = transport st"
  by (simp add: sampling_def Let_def)

lemma beforeSampling_transport:
  "transport (snd (beforeSampling cfg e st)) = transport st
   \<and> draws (snd (beforeSampling cfg e st)) = draws st"
  by (auto simp: beforeSampling_def dedupe_def split: option.splits)

lemma captureEvent_draws:
  "draws (snd (captureEvent cfg random e st)) =
     draws st + (case fst (beforeSampling cfg e st) of None \<Rightarrow> 0 | Some e1 \<Rightarrow> 1)"
proof (cases "beforeSampling cfg e st")
  case (Pair r st1)
  with beforeSampling_transport [of cfg e st] have d: "draws st1 = draws st" by simp
  show ?thesis
  proof (cases r)
    case None
    with Pair d show ?thesis by (simp add: captureEvent_def)
  next
    case (Some e1)
    obtain r2 st2 where s: "sampling cfg random e1 st1 = (r2, st2)"
      by (cases "sampling cfg random e1 st1")
    with sampling_draws [of cfg random e1 st1] have "draws st2 = Suc (draws st1)" by simp
    with Pair Some s d show ?thesis
      by (cases r2) (simp_all add: captureEvent_def)
  qed
qed

lemma captureEvent_transport:
  "transport (snd (captureEvent cfg random e st)) =
     transport st @
       (case fst (beforeSampling cfg e st) of
          None \<Rightarrow> []
        | Some e1 \<Rightarrow> if random (draws st) \<ge> sampleRate cfg then [] else [e1])
   \<and> previousEvent (snd (captureEvent cfg random e st))
       = previousEvent (snd (beforeSampling cfg e st))"
proof (cases "beforeSampling cfg e st")
  case (Pair r st1)
  with beforeSampling_transport [of cfg e st]
  have d: "draws st1 = draws st" "transport st1 = transport st" by simp_all
  show ?thesis
  proof (cases r)
    case None
    with Pair d show ?thesis by (simp add: captureEvent_def)
  next
    case (Some e1)
    obtain r2 st2 where s: "sampling cfg random e1 st1 = (r2, st2)"
      by (cases "sampling cfg random e1 st1")
    with sampling_keeps [of cfg random e1 st1] sampling_drops [of cfg random e1 st1]
    have "previousEvent st2 = previousEvent st1" "transport st2 = transport st1"
      "r2 = (if random (draws st1) \<ge> sampleRate cfg then None else Some e1)"
      by simp_all
    with Pair Some s d show ?thesis
      by (simp add: captureEvent_def)
  qed
qed

lemma captureEvents_transport_all_dropped:
  assumes "\<forall>n. random n \<ge> sampleRate cfg"
  shows "transport (captureEvents cfg random es st) = transport st"
proof (induction es arbitrary: st)
  case Nil
  show ?case by simp
next
  case (Cons e es)
  from captureEvent_transport [of cfg random e st] assms
  have "transport (snd (captureEvent cfg random e st)) = transport st"
    by (auto split: option.splits)
  with Cons.IH [of "snd (captureEvent cfg random e st)"] show ?case by simp
qed

lemma captureEvents_transport_all_kept:
  assumes "\<forall>n. random n < sampleRate cfg"
  shows "transport (captureEvents cfg random es st) = transport st @ passing cfg es st"
proof (induction es arbitrary: st)
  case Nil
  show ?case by simp
next
  case (Cons e es)
  let ?st1 = "snd (captureEvent cfg random e st)"
  note t = captureEvent_transport [of cfg random e st]
  from assms have nge: "\<not> random (draws st) \<ge> sampleRate cfg"
    by (simp add: not_le)
  from t have "previousEvent ?st1 = previousEvent (snd (beforeSampling cfg e st))"
    by simp
  then have "passing cfg es ?st1 = passing cfg es (snd (beforeSampling cfg e st))"
    by (rule passing_previousEvent)
  with Cons.IH [of ?st1] t nge show ?case
    by (cases "beforeSampling cfg e st") (auto split: option.splits)
qed

text \<open>
  C5. The sampling step takes exactly one random value for the event it is applied to and
  drops the event exactly when that value is at or above the sample rate; a capture makes
  that one draw when its event reaches the step, and none when an earlier step has
  dropped it. With draws in [0,1): at sample rate 0 no captured event reaches the
  transport, and at sample rate 1 the transport receives exactly the events that the
  other steps let through, in order.
\<close>

theorem sampling_draws_once_and_drops_at_rate:
  "draws (snd (sampling cfg random e st)) = Suc (draws st)
   \<and> fst (sampling cfg random e st)
       = (if random (draws st) \<ge> sampleRate cfg then None else Some e)
   \<and> draws (snd (captureEvent cfg random e st))
       = draws st + (case fst (beforeSampling cfg e st) of None \<Rightarrow> 0 | Some e1 \<Rightarrow> 1)
   \<and> (sampleRate cfg = 0 \<and> (\<forall>n. 0 \<le> random n) \<longrightarrow>
        transport (captureEvents cfg random es st) = transport st)
   \<and> (sampleRate cfg = 1 \<and> (\<forall>n. random n < 1) \<longrightarrow>
        transport (captureEvents cfg random es st) = transport st @ passing cfg es st)"
proof -
  have "sampleRate cfg = 0 \<and> (\<forall>n. 0 \<le> random n) \<longrightarrow>
        transport (captureEvents cfg random es st) = transport st"
    using captureEvents_transport_all_dropped [of cfg random es st] by auto
  moreover have "sampleRate cfg = 1 \<and> (\<forall>n. random n < 1) \<longrightarrow>
        transport (captureEvents cfg random es st) = transport st @ passing cfg es st"
  proof
    assume a: "sampleRate cfg = 1 \<and> (\<forall>n. random n < 1)"
    then have "\<forall>n. random n < sampleRate cfg"
      by simp
    then show "transport (captureEvents cfg random es st) = transport st @ passing cfg es st"
      by (rule captureEvents_transport_all_kept)
  qed
  ultimately show ?thesis
    by (simp add: sampling_draws sampling_drops captureEvent_draws)
qed

theorem sampling_draws_once_and_drops_at_rate_witness:
  "sampleRate \<lparr>sampleRate = 0, processors = []\<rparr> = 0 \<and> (\<forall>n::nat. (0::real) \<le> 0)
   \<and> transport (captureEvents \<lparr>sampleRate = 0, processors = []\<rparr> (\<lambda>n. 0)
        [\<lparr>event_id = ''1'', event_message = ''boom'', event_stack = []\<rparr>,
         \<lparr>event_id = ''2'', event_message = ''other'', event_stack = []\<rparr>]
        \<lparr>previousEvent = None, dropped = [], draws = 0, transport = []\<rparr>) = []
   \<and> sampleRate \<lparr>sampleRate = 1, processors = []\<rparr> = 1 \<and> (\<forall>n::nat. (1 / 2 :: real) < 1)
   \<and> transport (captureEvents \<lparr>sampleRate = 1, processors = []\<rparr> (\<lambda>n. 1 / 2)
        [\<lparr>event_id = ''1'', event_message = ''boom'', event_stack = []\<rparr>,
         \<lparr>event_id = ''2'', event_message = ''boom'', event_stack = []\<rparr>,
         \<lparr>event_id = ''3'', event_message = ''other'', event_stack = []\<rparr>]
        \<lparr>previousEvent = None, dropped = [], draws = 0, transport = []\<rparr>)
     = [\<lparr>event_id = ''1'', event_message = ''boom'', event_stack = []\<rparr>,
        \<lparr>event_id = ''3'', event_message = ''other'', event_stack = []\<rparr>]"
  using sampling_draws_once_and_drops_at_rate
    [of "\<lparr>sampleRate = 0, processors = []\<rparr>" "\<lambda>n. 0"
        "\<lparr>event_id = ''1'', event_message = ''boom'', event_stack = []\<rparr>"
        "\<lparr>previousEvent = None, dropped = [], draws = 0, transport = []\<rparr>"
        "[\<lparr>event_id = ''1'', event_message = ''boom'', event_stack = []\<rparr>,
          \<lparr>event_id = ''2'', event_message = ''other'', event_stack = []\<rparr>]"]
    sampling_draws_once_and_drops_at_rate
    [of "\<lparr>sampleRate = 1, processors = []\<rparr>" "\<lambda>n. 1 / 2"
        "\<lparr>event_id = ''1'', event_message = ''boom'', event_stack = []\<rparr>"
        "\<lparr>previousEvent = None, dropped = [], draws = 0, transport = []\<rparr>"
        "[\<lparr>event_id = ''1'', event_message = ''boom'', event_stack = []\<rparr>,
          \<lparr>event_id = ''2'', event_message = ''boom'', event_stack = []\<rparr>,
          \<lparr>event_id = ''3'', event_message = ''other'', event_stack = []\<rparr>]"]
  by (simp add: beforeSampling_def dedupe_def signature_def del: captureEvents.simps)

section \<open>Properties of the rate limiter\<close>

lemma update_60_error_key:
  "update default_backoff statusCode
     \<lparr>x_sentry_rate_limits = Some ''60:error:key'', retry_after = r\<rparr> t limits
   = limits(''error'' \<mapsto> t + 60000)"
  by (simp add: update_def update_segment_def split_char_def segment_categories_def
        parseSeconds_def is_digit_def digit_value_def known_scope_def)

lemma isRateLimited_cases:
  "isRateLimited limits category now \<longleftrightarrow>
     (case (limits category, limits ''all'') of
        (Some x, Some y) \<Rightarrow> now < max x y
      | (Some x, None) \<Rightarrow> now < x
      | (None, Some y) \<Rightarrow> now < y
      | (None, None) \<Rightarrow> False)"
  by (simp add: isRateLimited_def disabledUntil_def later_expiry_def split: option.splits)

text \<open>
  C6. \<open>isRateLimited\<close> answers true exactly when \<open>now\<close> is before the later of the two
  expiries stored for the category and for \<open>all\<close> (before the one that is stored when
  only one is, and never when none is). After an update with the header \<open>60:error:key\<close>
  at time \<open>t\<close>, \<open>error\<close> is limited at every time from \<open>t\<close> up to, not including, 60 seconds
  later; at 61 seconds later it is not limited, provided no limit on \<open>all\<close> from before
  the update lasts beyond that time.
\<close>

theorem isRateLimited_later_expiry:
  assumes "limits ''all'' = None \<or> (\<exists>e. limits ''all'' = Some e \<and> e \<le> t + 61000)"
  shows "(isRateLimited limits category now \<longleftrightarrow>
            (case (limits category, limits ''all'') of
               (Some x, Some y) \<Rightarrow> now < max x y
             | (Some x, None) \<Rightarrow> now < x
             | (None, Some y) \<Rightarrow> now < y
             | (None, None) \<Rightarrow> False))
         \<and> (t \<le> now' \<and> now' < t + 60000 \<longrightarrow>
              isRateLimited
                (update default_backoff statusCode
                   \<lparr>x_sentry_rate_limits = Some ''60:error:key'', retry_after = r\<rparr> t limits)
                ''error'' now')
         \<and> \<not> isRateLimited
                (update default_backoff statusCode
                   \<lparr>x_sentry_rate_limits = Some ''60:error:key'', retry_after = r\<rparr> t limits)
                ''error'' (t + 61000)"
  using assms
  by (auto simp: update_60_error_key isRateLimited_cases split: option.splits)

theorem isRateLimited_later_expiry_witness:
  "(Map.empty :: RateLimits) ''all'' = None
   \<and> isRateLimited
        (update 60000 200 \<lparr>x_sentry_rate_limits = Some ''60:error:key'', retry_after = None\<rparr>
           1000 Map.empty) ''error'' 1000
   \<and> isRateLimited
        (update 60000 200 \<lparr>x_sentry_rate_limits = Some ''60:error:key'', retry_after = None\<rparr>
           1000 Map.empty) ''error'' 60999
   \<and> \<not> isRateLimited
        (update 60000 200 \<lparr>x_sentry_rate_limits = Some ''60:error:key'', retry_after = None\<rparr>
           1000 Map.empty) ''error'' 62000"
  using isRateLimited_later_expiry
    [where limits = Map.empty and t = 1000 and category = "''error''" and now = 0
       and now' = 1000 and default_backoff = 60000 and statusCode = 200 and r = None]
    isRateLimited_later_expiry
    [where limits = Map.empty and t = 1000 and category = "''error''" and now = 0
       and now' = 60999 and default_backoff = 60000 and statusCode = 200 and r = None]
  by simp

section \<open>Properties of the SvelteKit server error handler\<close>

lemma hasNoRouteId_iff:
  "hasNoRouteId ev \<longleftrightarrow>
     route ev = None \<or> (\<exists>r. route ev = Some r \<and> (route_id r = None \<or> route_id r = Some []))"
  by (auto simp: hasNoRouteId_def split: option.splits)

lemma rawStack_string:
  "err = Object ps \<Longrightarrow> map_of ps ''stack'' = Some (Prim (PStr s)) \<Longrightarrow> rawStack err = s"
  by (cases s) (simp_all add: rawStack_def)

lemma rawStack_nonempty:
  assumes "rawStack err \<noteq> []"
  shows "\<exists>ps. err = Object ps \<and> map_of ps ''stack'' = Some (Prim (PStr (rawStack err)))"
proof (cases err)
  case (Prim p)
  with assms show ?thesis by (simp add: rawStack_def)
next
  case (Object ps)
  show ?thesis
  proof (cases "map_of ps ''stack''")
    case None
    with assms Object show ?thesis by (simp add: rawStack_def)
  next
    case (Some v)
    show ?thesis
    proof (cases v)
      case (Prim p)
      with assms Object Some show ?thesis
        by (cases p) (simp_all add: rawStack_def split: if_splits)
    next
      case (Object qs)
      with assms \<open>err = Object ps\<close> Some show ?thesis by (simp add: rawStack_def)
    qed
  qed
qed

lemma isNotFoundError_iff:
  "isNotFoundError input \<longleftrightarrow>
     (route (input_event input) = None
        \<or> (\<exists>r. route (input_event input) = Some r \<and> (route_id r = None \<or> route_id r = Some [])))
     \<and> (\<exists>ps s. input_error input = Object ps \<and> map_of ps ''stack'' = Some (Prim (PStr s))
            \<and> prefix ''Error: Not found:'' s)"
  (is "?lhs \<longleftrightarrow> ?noid \<and> ?stack")
proof
  assume l: ?lhs
  then have noid: ?noid
    by (simp add: isNotFoundError_def hasNoRouteId_iff)
  from l have sw: "startsWith (rawStack (input_error input)) ''Error: Not found:''"
    by (simp add: isNotFoundError_def)
  then have "rawStack (input_error input) \<noteq> []"
    by (auto simp: startsWith_def)
  then obtain ps where ps: "input_error input = Object ps"
      "map_of ps ''stack'' = Some (Prim (PStr (rawStack (input_error input))))"
    using rawStack_nonempty by blast
  from sw have "prefix ''Error: Not found:'' (rawStack (input_error input))"
    unfolding startsWith_def by (metis take_is_prefix)
  with ps have ?stack by blast
  with noid show "?noid \<and> ?stack" ..
next
  assume r: "?noid \<and> ?stack"
  then obtain ps s where ps: "input_error input = Object ps"
      "map_of ps ''stack'' = Some (Prim (PStr s))" "prefix ''Error: Not found:'' s"
    by blast
  then have "rawStack (input_error input) = s"
    by (simp add: rawStack_string)
  moreover from ps(3) have "startsWith s ''Error: Not found:''"
    unfolding startsWith_def prefix_def by auto
  ultimately show ?lhs
    using r by (simp add: isNotFoundError_def hasNoRouteId_iff)
qed

text \<open>
  C10. The wrapper hands the error to \<open>captureException\<close> (once, with the sveltekit
  mechanism) exactly when the input is not a "Not found" error, and in both cases its
  outcome is the outcome of the wrapped handler on the same input. "Not found" is: the
  event has no route or its route has no id (\<open>null\<close> or empty), and the error is an object
  whose \<open>stack\<close> is a string starting with \<open>Error: Not found:\<close>.
\<close>

theorem handleErrorWithSentry_captures_unless_not_found:
  "handleErrorWithSentry flush handleErrorOpt input w =
     (case handleErrorOpt of None \<Rightarrow> defaultErrorHandler | Some h \<Rightarrow> h) input
       (if (route (input_event input) = None
              \<or> (\<exists>r. route (input_event input) = Some r \<and> (route_id r = None \<or> route_id r = Some [])))
           \<and> (\<exists>ps s. input_error input = Object ps \<and> map_of ps ''stack'' = Some (Prim (PStr s))
                  \<and> prefix ''Error: Not found:'' s)
        then w
        else w\<lparr>captured := captured w
                  @ [(input_error input, \<lparr>mechanism_type = ''sveltekit'', handled = False\<rparr>)],
               sdk := flush (sdk w)\<rparr>)"
  unfolding isNotFoundError_iff [symmetric]
  by (simp add: handleErrorWithSentry_def captureException_def Let_def)

theorem handleErrorWithSentry_captures_unless_not_found_witness:
  "handleErrorWithSentry (\<lambda>n. Suc n) None
     \<lparr>input_error = Object [(''stack'', Prim (PStr ''Error: Not found: /nope''))],
      input_event = \<lparr>route = Some \<lparr>route_id = None\<rparr>\<rparr>\<rparr>
     \<lparr>captured = [], sdk = 0::nat, console_error = [], host = ()\<rparr>
   = (Inr (Prim Undefined),
      \<lparr>captured = [], sdk = 0, console_error = [Prim (PStr ''Error: Not found: /nope'')],
       host = ()\<rparr>)
   \<and> handleErrorWithSentry (\<lambda>n. Suc n) None
     \<lparr>input_error = Object [(''stack'', Prim (PStr ''Error: boom''))],
      input_event = \<lparr>route = Some \<lparr>route_id = None\<rparr>\<rparr>\<rparr>
     \<lparr>captured = [], sdk = 0::nat, console_error = [], host = ()\<rparr>
   = (Inr (Prim Undefined),
      \<lparr>captured = [(Object [(''stack'', Prim (PStr ''Error: boom''))],
                    \<lparr>mechanism_type = ''sveltekit'', handled = False\<rparr>)],
       sdk = 1, console_error = [Prim (PStr ''Error: boom'')], host = ()\<rparr>)"
  using handleErrorWithSentry_captures_unless_not_found
    [of "\<lambda>n. Suc n" None
        "\<lparr>input_error = Object [(''stack'', Prim (PStr ''Error: Not found: /nope''))],
          input_event = \<lparr>route = Some \<lparr>route_id = None\<rparr>\<rparr>\<rparr>"
        "\<lparr>captured = [], sdk = 0::nat, console_error = [], host = ()\<rparr>"]
    handleErrorWithSentry_captures_unless_not_found
    [of "\<lambda>n. Suc n" None
        "\<lparr>input_error = Object [(''stack'', Prim (PStr ''Error: boom''))],
          input_event = \<lparr>route = Some \<lparr>route_id = None\<rparr>\<rparr>\<rparr>"
        "\<lparr>captured = [], sdk = 0::nat, console_error = [], host = ()\<rparr>"]
  by (simp add: defaultErrorHandler_def)

section \<open>Properties of the GlobalHandlers integration\<close>

lemma initialInstallFunc_inj [simp]:
  "initialInstallFunc k = initialInstallFunc k' \<longleftrightarrow> k = k'"
  by (cases k; cases k') (simp_all add: initialInstallFunc_def)

lemma setupOnce_key_slots:
  assumes "\<forall>k. slot_ok this new k" and "installs p = base @ new"
    and "setupOnce_key d effect key (this, p) = (this', p')"
  shows "\<exists>new'. installs p' = base @ new' \<and> (\<forall>k. slot_ok this' new' k)"
proof (cases "installFunc this key")
  case None
  with assms show ?thesis by (auto simp: setupOnce_key_def)
next
  case (Some f)
  from assms(1) have "slot_ok this new key" by blast
  with Some have f: "f = initialInstallFunc key" and c: "count_list new (initialInstallFunc key) = 0"
    by (auto simp: slot_ok_def)
  show ?thesis
  proof (cases "options this key")
    case False
    with assms Some show ?thesis by (auto simp: setupOnce_key_def)
  next
    case True
    with assms(3) Some have this': "this' = this\<lparr>installFunc := (installFunc this)(key := None)\<rparr>"
      and p': "installs p' = installs p @ [f]"
      by (auto simp: setupOnce_key_def call_install_def globalHandlerLog_def)
    have "\<forall>k. slot_ok this' (new @ [f]) k"
    proof
      fix k
      from assms(1) have "slot_ok this new k" by blast
      then show "slot_ok this' (new @ [f]) k"
        using c by (cases "k = key") (auto simp: slot_ok_def this' f)
    qed
    with p' assms(2) show ?thesis by auto
  qed
qed

lemma setupOnce_slots:
  assumes "\<forall>k. slot_ok this new k" and "installs p = base @ new"
    and "setupOnce d effect (this, p) = (this', p')"
  shows "\<exists>new'. installs p' = base @ new' \<and> (\<forall>k. slot_ok this' new' k)"
proof -
  obtain this1 p1 where 1:
    "setupOnce_key d effect onerror (this, p\<lparr>stackTraceLimit := 50\<rparr>) = (this1, p1)"
    by (cases "setupOnce_key d effect onerror (this, p\<lparr>stackTraceLimit := 50\<rparr>)")
  with assms(3) have 2: "setupOnce_key d effect onunhandledrejection (this1, p1) = (this', p')"
    by (simp add: setupOnce_def)
  from assms(2) have "installs (p\<lparr>stackTraceLimit := 50\<rparr>) = base @ new" by simp
  from setupOnce_key_slots [OF assms(1) this 1]
  obtain new1 where "installs p1 = base @ new1" "\<forall>k. slot_ok this1 new1 k" by blast
  from setupOnce_key_slots [OF this(2) this(1) 2] show ?thesis .
qed

lemma setupOnce_funpow_slots:
  assumes "(setupOnce d effect ^^ n) (constructor opts, p0) = (this, p)"
  shows "\<exists>new. installs p = installs p0 @ new \<and> (\<forall>k. slot_ok this new k)"
  using assms
proof (induction n arbitrary: this p)
  case 0
  then show ?case by (auto simp: slot_ok_def constructor_def)
next
  case (Suc n)
  obtain this1 p1 where 1: "(setupOnce d effect ^^ n) (constructor opts, p0) = (this1, p1)"
    by (cases "(setupOnce d effect ^^ n) (constructor opts, p0)")
  from Suc.IH [OF 1] obtain new where new: "installs p1 = installs p0 @ new"
      "\<forall>k. slot_ok this1 new k" by blast
  from Suc.prems 1 have "setupOnce d effect (this1, p1) = (this, p)" by simp
  from setupOnce_slots [OF new(2) new(1) this] show ?case .
qed

text \<open>
  C8. Take any instance as its constructor builds it and call \<open>setupOnce\<close> on it any
  number of times. The calls of install functions made since construction contain each
  install function at most once; a function that has been called has left its slot
  undefined, and a slot that is still defined belongs to a function that has not been
  called.
\<close>

theorem setupOnce_installs_at_most_once:
  "case (setupOnce DEBUG_BUILD effect ^^ n) (constructor opts, p0) of (this, p) \<Rightarrow>
     \<exists>new. installs p = installs p0 @ new
       \<and> count_list new (initialInstallFunc key) \<le> 1
       \<and> (installFunc this key = Some (initialInstallFunc key)
              \<and> count_list new (initialInstallFunc key) = 0
            \<or> installFunc this key = None \<and> count_list new (initialInstallFunc key) = 1)"
proof -
  obtain this p where s: "(setupOnce DEBUG_BUILD effect ^^ n) (constructor opts, p0) = (this, p)"
    by (cases "(setupOnce DEBUG_BUILD effect ^^ n) (constructor opts, p0)")
  from setupOnce_funpow_slots [OF s] obtain new where
    "installs p = installs p0 @ new" "slot_ok this new key" by blast
  then show ?thesis
    unfolding s by (auto simp: slot_ok_def)
qed

theorem setupOnce_installs_at_most_once_witness:
  "installs (snd ((setupOnce True (\<lambda>f g. Suc g) ^^ 3)
       (constructor (\<lambda>k. None),
        \<lparr>stackTraceLimit = 10, logged = [], installs = [], globals = 0::nat\<rparr>)))
     = [installGlobalOnErrorHandler, installGlobalOnUnhandledRejectionHandler]
   \<and> installFunc (fst ((setupOnce True (\<lambda>f g. Suc g) ^^ 3)
       (constructor (\<lambda>k. None),
        \<lparr>stackTraceLimit = 10, logged = [], installs = [], globals = 0::nat\<rparr>))) onerror = None
   \<and> count_list (installs (snd ((setupOnce True (\<lambda>f g. Suc g) ^^ 3)
       (constructor (\<lambda>k. None),
        \<lparr>stackTraceLimit = 10, logged = [], installs = [], globals = 0::nat\<rparr>))))
        installGlobalOnErrorHandler \<le> 1"
  using setupOnce_installs_at_most_once
    [where DEBUG_BUILD = True and effect = "\<lambda>f g. Suc g" and n = 3 and opts = "\<lambda>k. None"
       and ?p0.0 = "\<lparr>stackTraceLimit = 10, logged = [], installs = [], globals = 0::nat\<rparr>"
       and key = onerror]
  by (simp add: eval_nat_numeral setupOnce_def setupOnce_key_def constructor_def
        call_install_def globalHandlerLog_def initialInstallFunc_def)

section \<open>Properties of the instrumented global error handler\<close>

lemma call_onerror_host:
  "call_onerror triggerHandlers (HostHandler marked body) this arguments w =
     (case body this arguments (page_state w) of (r, p) \<Rightarrow> Some (r, w\<lparr>page_state := p\<rparr>))"
  by (subst call_onerror.simps) simp

lemma call_onerror_sentry:
  "triggerHandlers ''error'' (handlerData arguments) (page_state w) = (Inr u, p) \<Longrightarrow>
   call_onerror triggerHandlers SentryOnError this arguments w =
     (case oldOnErrorHandler w of
        Some old \<Rightarrow>
          if \<not> SENTRY_LOADER old
          then call_onerror triggerHandlers old this arguments (w\<lparr>page_state := p\<rparr>)
          else Some (Inr (Prim (PBool False)), w\<lparr>page_state := p\<rparr>)
      | None \<Rightarrow> Some (Inr (Prim (PBool False)), w\<lparr>page_state := p\<rparr>))"
  by (subst call_onerror.simps) simp

text \<open>
  C9. Let \<open>instrumentError\<close> run on a page whose \<open>onerror\<close> is the host's handler or
  empty. Then an invocation of the global \<open>onerror\<close> returns, and, when
  \<open>triggerHandlers\<close> returns, it has first triggered the handlers for \<open>error\<close> with the
  data built from the arguments and then: applied the previous handler, if there was one
  and it is not marked \<open>__SENTRY_LOADER__\<close>, to the same \<open>this\<close> and arguments on the page
  as the handlers left it, its outcome being the outcome of the invocation; and returned
  \<open>false\<close> otherwise.
\<close>

theorem instrumentError_preserves_previous_handler:
  assumes "GLOBAL_OBJ_onerror w0 = None \<or> GLOBAL_OBJ_onerror w0 = Some (HostHandler marked body)"
    and "triggerHandlers ''error'' (handlerData arguments) (page_state w0) = (Inr (), p1)"
  shows "invoke_global_onerror triggerHandlers this arguments (instrumentError w0) =
           Some (if GLOBAL_OBJ_onerror w0 = Some (HostHandler marked body) \<and> \<not> marked
                 then (fst (body this arguments p1),
                       (instrumentError w0)\<lparr>page_state := snd (body this arguments p1)\<rparr>)
                 else (Inr (Prim (PBool False)), (instrumentError w0)\<lparr>page_state := p1\<rparr>))"
proof -
  have "page_state (instrumentError w0) = page_state w0"
    by (simp add: instrumentError_def)
  with assms(2) have
    "call_onerror triggerHandlers SentryOnError this arguments (instrumentError w0) =
       (case GLOBAL_OBJ_onerror w0 of
          Some old \<Rightarrow>
            if \<not> SENTRY_LOADER old
            then call_onerror triggerHandlers old this arguments ((instrumentError w0)\<lparr>page_state := p1\<rparr>)
            else Some (Inr (Prim (PBool False)), (instrumentError w0)\<lparr>page_state := p1\<rparr>)
        | None \<Rightarrow> Some (Inr (Prim (PBool False)), (instrumentError w0)\<lparr>page_state := p1\<rparr>))"
    by (subst call_onerror_sentry [where u = "()" and p = p1])
       (simp_all add: instrumentError_def)
  moreover have "GLOBAL_OBJ_onerror (instrumentError w0) = Some SentryOnError"
    by (simp add: instrumentError_def)
  ultimately show ?thesis
    using assms(1)
    by (auto simp: invoke_global_onerror_def call_onerror_host split_beta)
qed

theorem instrumentError_preserves_previous_handler_witness:
  "invoke_global_onerror (\<lambda>type d p. (Inr (), p @ [''sentry: '' @ type]))
      (Prim Undefined) [Prim (PStr ''boom''), Prim (PStr ''app.js''), Prim (PNum 3)]
      (instrumentError
         \<lparr>GLOBAL_OBJ_onerror =
            Some (HostHandler False (\<lambda>this args p. (Inr (Prim (PBool True)), p @ [''host''])) ),
          oldOnErrorHandler = None, page_state = []\<rparr>)
   = Some (Inr (Prim (PBool True)),
       \<lparr>GLOBAL_OBJ_onerror = Some SentryOnError,
        oldOnErrorHandler =
            Some (HostHandler False (\<lambda>this args p. (Inr (Prim (PBool True)), p @ [''host''])) ),
        page_state = [''sentry: error'', ''host'']\<rparr>)"
  using instrumentError_preserves_previous_handler
    [where ?w0.0 = "\<lparr>GLOBAL_OBJ_onerror =
            Some (HostHandler False (\<lambda>this args p. (Inr (Prim (PBool True)), p @ [''host''])) ),
          oldOnErrorHandler = None, page_state = []\<rparr>"
       and marked = False
       and body = "\<lambda>this args p. (Inr (Prim (PBool True)), p @ [''host''])"
       and triggerHandlers = "\<lambda>type d p. (Inr (), p @ [''sentry: '' @ type])"
       and arguments = "[Prim (PStr ''boom''), Prim (PStr ''app.js''), Prim (PNum 3)]"
       and ?p1.0 = "[''sentry: error'']"
       and this = "Prim Undefined"]
  by (simp add: instrumentError_def)

section \<open>Properties of the initial stack frame\<close>

lemmas ensure_defs =
  ensure_exception_def ensure_values_def ensure_first_def ensure_stacktrace_def ensure_frames_def

lemma lookup_less: "lookup h a = Some obj \<Longrightarrow> a < length h"
  by (simp add: lookup_def split: if_splits)

lemma lookup_store:
  "lookup (store h a obj) b = (if b = a \<and> a < length h then Some obj else lookup h b)"
  by (simp add: lookup_def store_def)

lemma lookup_alloc:
  "lookup (h @ [obj]) b = (if b = length h then Some obj else lookup h b)"
  by (simp add: lookup_def nth_append)

lemma length_store [simp]: "length (store h a obj) = length h"
  by (simp add: store_def)

lemma store_same: "lookup h a = Some obj \<Longrightarrow> store h a obj = h"
  by (auto simp: lookup_def store_def split: if_splits)

lemma get_event_iff: "get_event h a = Some x \<longleftrightarrow> lookup h a = Some (EventObj x)"
  by (auto simp: get_event_def split: option.splits object.splits)
lemma get_container_iff: "get_container h a = Some x \<longleftrightarrow> lookup h a = Some (ExceptionContainerObj x)"
  by (auto simp: get_container_def split: option.splits object.splits)
lemma get_values_iff: "get_values h a = Some x \<longleftrightarrow> lookup h a = Some (ValuesArr x)"
  by (auto simp: get_values_def split: option.splits object.splits)
lemma get_exception_iff: "get_exception h a = Some x \<longleftrightarrow> lookup h a = Some (ExceptionObj x)"
  by (auto simp: get_exception_def split: option.splits object.splits)
lemma get_stacktrace_iff: "get_stacktrace h a = Some x \<longleftrightarrow> lookup h a = Some (StacktraceObj x)"
  by (auto simp: get_stacktrace_def split: option.splits object.splits)
lemma get_frames_iff: "get_frames h a = Some x \<longleftrightarrow> lookup h a = Some (FramesArr x)"
  by (auto simp: get_frames_def split: option.splits object.splits)

lemmas get_defs = get_event_def get_container_def get_values_def get_exception_def get_stacktrace_def get_frames_def

lemma enhanced_no_exception:
  assumes "lookup h event = Some (EventObj x)" "exception x = None"
  shows "enhanced_in_place href h event url line column"
  using assms lookup_less[OF assms(1)]
  by (simp add: enhanced_in_place_def enhanceEventWithInitialFrame_def frames_of_def first_element_def ensure_defs get_defs alloc_def lookup_store lookup_alloc)

lemma upd_exception: "exception x = Some e \<Longrightarrow> x\<lparr>exception := Some e\<rparr> = x" by (cases x) simp
lemma upd_values: "values' c = Some v \<Longrightarrow> c\<lparr>values' := Some v\<rparr> = c" by (cases c) simp
lemma upd_stacktrace: "stacktrace x0 = Some s \<Longrightarrow> x0\<lparr>stacktrace := Some s\<rparr> = x0" by (cases x0) simp
lemma upd_frames: "frames st = Some f \<Longrightarrow> st\<lparr>frames := Some f\<rparr> = st" by (cases st) simp
lemmas upds = upd_exception upd_values upd_stacktrace upd_frames

lemmas enhance_simps =
  enhanced_in_place_def enhanceEventWithInitialFrame_def frames_of_def first_element_def ensure_defs get_defs alloc_def lookup_store lookup_alloc upds store_same

lemma enhanced_no_values:
  assumes "lookup h event = Some (EventObj x)" "exception x = Some e"
    "lookup h e = Some (ExceptionContainerObj c)" "values' c = None"
  shows "enhanced_in_place href h event url line column"
  using assms lookup_less[OF assms(1)] lookup_less[OF assms(3)]
  by (auto simp: enhance_simps)

lemma enhanced_empty_values:
  assumes "lookup h event = Some (EventObj x)" "exception x = Some e"
    "lookup h e = Some (ExceptionContainerObj c)" "values' c = Some v"
    "lookup h v = Some (ValuesArr [])"
  shows "enhanced_in_place href h event url line column"
  using assms lookup_less[OF assms(1)] lookup_less[OF assms(3)] lookup_less[OF assms(5)]
  by (auto simp: enhance_simps)

lemma enhanced_no_stacktrace:
  assumes "lookup h event = Some (EventObj x)" "exception x = Some e"
    "lookup h e = Some (ExceptionContainerObj c)" "values' c = Some v"
    "lookup h v = Some (ValuesArr (a # as))" "lookup h a = Some (ExceptionObj x0)"
    "stacktrace x0 = None"
  shows "enhanced_in_place href h event url line column"
  using assms lookup_less[OF assms(1)] lookup_less[OF assms(3)] lookup_less[OF assms(5)] lookup_less[OF assms(6)]
  by (auto simp: enhance_simps)

lemma enhanced_no_frames:
  assumes "lookup h event = Some (EventObj x)" "exception x = Some e"
    "lookup h e = Some (ExceptionContainerObj c)" "values' c = Some v"
    "lookup h v = Some (ValuesArr (a # as))" "lookup h a = Some (ExceptionObj x0)"
    "stacktrace x0 = Some s" "lookup h s = Some (StacktraceObj st)" "frames st = None"
  shows "enhanced_in_place href h event url line column"
  using assms lookup_less[OF assms(1)] lookup_less[OF assms(3)] lookup_less[OF assms(5)] lookup_less[OF assms(6)] lookup_less[OF assms(8)]
  by (auto simp: enhance_simps)

lemma enhanced_with_frames:
  assumes "lookup h event = Some (EventObj x)" "exception x = Some e"
    "lookup h e = Some (ExceptionContainerObj c)" "values' c = Some v"
    "lookup h v = Some (ValuesArr (a # as))" "lookup h a = Some (ExceptionObj x0)"
    "stacktrace x0 = Some s" "lookup h s = Some (StacktraceObj st)" "frames st = Some f"
    "lookup h f = Some (FramesArr fs)"
  shows "enhanced_in_place href h event url line column"
  using assms lookup_less[OF assms(1)] lookup_less[OF assms(3)] lookup_less[OF assms(5)] lookup_less[OF assms(6)] lookup_less[OF assms(8)] lookup_less[OF assms(10)]
  by (auto simp: enhance_simps)

lemma enhanced_in_place_well_typed:
  assumes "well_typed h event"
  shows "enhanced_in_place href h event url line column"
proof -
  from assms obtain x where gx: "get_event h event = Some x"
    by (auto simp: well_typed_def split: option.splits)
  then have x: "lookup h event = Some (EventObj x)" by (simp add: get_event_iff)
  show ?thesis
  proof (cases "exception x")
    case None
    with x show ?thesis by (rule enhanced_no_exception)
  next
    case e: (Some e)
    with assms gx obtain c where gc: "get_container h e = Some c"
      by (auto simp: well_typed_def split: option.splits)
    then have c: "lookup h e = Some (ExceptionContainerObj c)" by (simp add: get_container_iff)
    show ?thesis
    proof (cases "values' c")
      case None
      with x e c show ?thesis by (rule enhanced_no_values)
    next
      case v: (Some v)
      with assms gx e gc obtain xs where gxs: "get_values h v = Some xs"
        by (auto simp: well_typed_def split: option.splits)
      then have xs: "lookup h v = Some (ValuesArr xs)" by (simp add: get_values_iff)
      show ?thesis
      proof (cases xs)
        case Nil
        with x e c v xs show ?thesis by (auto intro: enhanced_empty_values)
      next
        case (Cons a as)
        with xs have xs': "lookup h v = Some (ValuesArr (a # as))" by simp
        from assms gx e gc v gxs Cons obtain x0 where gx0: "get_exception h a = Some x0"
          by (auto simp: well_typed_def split: option.splits)
        then have x0: "lookup h a = Some (ExceptionObj x0)" by (simp add: get_exception_iff)
        show ?thesis
        proof (cases "stacktrace x0")
          case None
          with x e c v xs' x0 show ?thesis by (rule enhanced_no_stacktrace)
        next
          case s: (Some s)
          with assms gx e gc v gxs Cons gx0 obtain st where gst: "get_stacktrace h s = Some st"
            by (auto simp: well_typed_def split: option.splits)
          then have st: "lookup h s = Some (StacktraceObj st)" by (simp add: get_stacktrace_iff)
          show ?thesis
          proof (cases "frames st")
            case None
            with x e c v xs' x0 s st show ?thesis by (rule enhanced_no_frames)
          next
            case f: (Some f)
            with assms gx e gc v gxs Cons gx0 s gst obtain fs where "get_frames h f = Some fs"
              by (auto simp: well_typed_def split: option.splits)
            then have "lookup h f = Some (FramesArr fs)" by (simp add: get_frames_iff)
            with x e c v xs' x0 s st f show ?thesis by (rule enhanced_with_frames)
          qed
        qed
      qed
    qed
  qed
qed




lemma initial_frame_url:
  "isString url \<Longrightarrow> string_of url \<noteq> [] \<Longrightarrow>
   initial_frame locationHref url line column =
     \<lparr>colno = (if isNaN (parseInt column) then Undefined else column),
      filename = Some (string_of url), function' = Some ''?'', in_app = Some True,
      lineno = (if isNaN (parseInt line) then Undefined else line)\<rparr>"
  by (simp add: initial_frame_def)

text \<open>
  C7. When \<open>url\<close> is a non-empty string, the page's location is not read: the store and
  the reference that \<open>_enhanceEventWithInitialFrame\<close> leaves are the same whatever the
  location is, so they are determined by the event (with the store it lives in), url,
  line and column. On an event whose references are of their kinds the call returns.
\<close>

theorem enhanceEventWithInitialFrame_deterministic:
  "isString url \<Longrightarrow> string_of url \<noteq> [] \<Longrightarrow>
   enhanceEventWithInitialFrame locationHref1 h event url line column
     = enhanceEventWithInitialFrame locationHref2 h event url line column
   \<and> (well_typed h event \<longrightarrow>
        enhanceEventWithInitialFrame locationHref1 h event url line column \<noteq> None)"
proof -
  assume u: "isString url" "string_of url \<noteq> []"
  have "enhanceEventWithInitialFrame locationHref1 h event url line column
          = enhanceEventWithInitialFrame locationHref2 h event url line column"
    by (simp add: enhanceEventWithInitialFrame_def initial_frame_url [OF u] cong: if_cong)
  moreover have "well_typed h event \<longrightarrow>
        enhanceEventWithInitialFrame locationHref1 h event url line column \<noteq> None"
    using enhanced_in_place_well_typed [of h event locationHref1 url line column]
    by (auto simp: enhanced_in_place_def split: option.splits)
  ultimately show ?thesis ..
qed

theorem enhanceEventWithInitialFrame_deterministic_witness:
  "isString (PStr ''app.js'') \<and> string_of (PStr ''app.js'') \<noteq> []
   \<and> well_typed [EventObj \<lparr>exception = None, other_properties = []\<rparr>] 0
   \<and> enhanceEventWithInitialFrame ''http://a.example/''
        [EventObj \<lparr>exception = None, other_properties = []\<rparr>] 0 (PStr ''app.js'') (PNum 1) PNaN
     = enhanceEventWithInitialFrame ''http://b.example/''
        [EventObj \<lparr>exception = None, other_properties = []\<rparr>] 0 (PStr ''app.js'') (PNum 1) PNaN
   \<and> enhanceEventWithInitialFrame ''http://a.example/''
        [EventObj \<lparr>exception = None, other_properties = []\<rparr>] 0 (PStr ''app.js'') (PNum 1) PNaN
     \<noteq> None"
proof -
  have s: "isString (PStr ''app.js'')" "string_of (PStr ''app.js'') \<noteq> []"
    by simp_all
  have wt: "well_typed [EventObj \<lparr>exception = None, other_properties = []\<rparr>] 0"
    by (simp add: well_typed_def get_defs lookup_def)
  from enhanceEventWithInitialFrame_deterministic
    [OF s, of "''http://a.example/''"
        "[EventObj \<lparr>exception = None, other_properties = []\<rparr>]" 0 "PNum 1" PNaN
        "''http://b.example/''"] wt s
  show ?thesis by blast
qed

text \<open>Without a url the frame takes the page's location, so the result depends on it.\<close>

lemma enhanceEventWithInitialFrame_reads_location:
  "enhanceEventWithInitialFrame ''http://a.example/''
     [EventObj \<lparr>exception = None, other_properties = []\<rparr>] 0 Undefined (PNum 1) (PNum 2)
   \<noteq> enhanceEventWithInitialFrame ''http://b.example/''
     [EventObj \<lparr>exception = None, other_properties = []\<rparr>] 0 Undefined (PNum 1) (PNum 2)"
  by (simp add: enhanceEventWithInitialFrame_def ensure_defs get_defs alloc_def lookup_def
        store_def initial_frame_def isNaN_def)

section \<open>Properties of capturing an XHR breadcrumb\<close>







end
